theory Spec2Isabelle
  imports Main "HOL-Library.AList" "HOL-Library.Sublist"
begin

section \<open>Strings as the importer sees them\<close>

text \<open>
  A source string is a list of code units; \<^typ>\<open>char\<close> stands for the code units
  below 256.  The regular expression class \<^verbatim>\<open>\s\<close> contains, in that range, the
  characters tab, line feed, vertical tab, form feed, carriage return, space and
  the no-break space; \<^verbatim>\<open>\S\<close> is its complement.
\<close>

definition isWhitespace :: "char \<Rightarrow> bool" where
  "isWhitespace c = (c \<in> {CHR 0x09, CHR 0x0A, CHR 0x0B, CHR 0x0C, CHR 0x0D, CHR 0x20, CHR 0xA0})"

definition newline :: char where
  "newline = CHR 0x0A"

definition tripleQuote :: string where
  "tripleQuote = [CHR 0x22, CHR 0x22, CHR 0x22]"

text \<open>\<^verbatim>\<open>s.slice(a, -k)\<close>: the code units from index \<open>a\<close> up to, not including,
  index \<open>length s - k\<close>; empty when the range is empty.\<close>

definition sliceFromEnd :: "string \<Rightarrow> nat \<Rightarrow> nat \<Rightarrow> string" where
  "sliceFromEnd s a k = take ((length s - k) - a) (drop a s)"

text \<open>\<^verbatim>\<open>s.split(c)\<close> for a separator \<open>c\<close> of one character: always at least one
  piece.\<close>

fun splitOn :: "char \<Rightarrow> string \<Rightarrow> string list" where
  "splitOn sep [] = [[]]"
| "splitOn sep (c # cs) =
     (if c = sep then [] # splitOn sep cs
      else (case splitOn sep cs of
              [] \<Rightarrow> [[c]]
            | l # ls \<Rightarrow> (c # l) # ls))"

text \<open>\<^verbatim>\<open>lines.join('\n')\<close>.\<close>

fun joinLines :: "string list \<Rightarrow> string" where
  "joinLines [] = []"
| "joinLines [l] = l"
| "joinLines (l # ls) = l @ newline # joinLines ls"

text \<open>\<^verbatim>\<open>line.search(/\S/) === -1\<close>: the line has no character that is not
  whitespace.\<close>

definition onlyWhitespace :: "string \<Rightarrow> bool" where
  "onlyWhitespace line = list_all isWhitespace line"

text \<open>\<^verbatim>\<open>line.search(/\S|$/)\<close>: the index of the first character that is not
  whitespace, the length of the line when there is none.\<close>

definition firstNonSpace :: "string \<Rightarrow> nat" where
  "firstNonSpace line = length (takeWhile isWhitespace line)"

subsection \<open>FSHImporter.extractMultilineString\<close>

text \<open>The body of the \<^verbatim>\<open>forEach\<close> that computes \<^verbatim>\<open>minSpaces\<close>.\<close>

definition minSpacesStep :: "nat \<Rightarrow> string \<Rightarrow> nat" where
  "minSpacesStep minSpaces line =
     (if firstNonSpace line > 0 \<and> (minSpaces = 0 \<or> firstNonSpace line < minSpaces)
      then firstNonSpace line else minSpaces)"

definition minSpacesOf :: "string list \<Rightarrow> nat" where
  "minSpacesOf ls = foldl minSpacesStep 0 ls"

definition dropLastBlank :: "string list \<Rightarrow> string list" where
  "dropLastBlank ls = (if ls \<noteq> [] \<and> onlyWhitespace (last ls) then butlast ls else ls)"

definition trimLine :: "nat \<Rightarrow> string \<Rightarrow> string" where
  "trimLine minSpaces l = (if length l \<ge> minSpaces then drop minSpaces l else l)"

text \<open>The argument is the text of the \<^verbatim>\<open>MULTILINE_STRING\<close> token, delimiters
  included.\<close>

definition extractMultilineString :: "string \<Rightarrow> string" where
  "extractMultilineString mlstr0 =
     (let mlstr = sliceFromEnd mlstr0
                    (if 3 < length mlstr0 \<and> mlstr0 ! 3 = newline then 4 else 3) 3;
          ls = dropLastBlank (splitOn newline mlstr);
          minSpaces = minSpacesOf ls
      in joinLines (map (trimLine minSpaces) ls))"

section \<open>Data model of the exporter\<close>

subsection \<open>JSON values and instance definitions\<close>

text \<open>
  An exported instance is a JSON-shaped tree.  An object keeps its properties in
  insertion order; reading a property that is absent gives \<^verbatim>\<open>undefined\<close>, which is
  \<open>None\<close> here.
\<close>

datatype json =
    JNull
  | JBool bool
  | JNum int
  | JStr string
  | JArr "json list"
  | JObj "(string \<times> json) list"

datatype InstanceUsage = Example | Definition | Inline

record InstanceMeta =
  meta_name :: string
  meta_title :: "string option"
  meta_description :: "string option"
  meta_usage :: "InstanceUsage option"
  meta_sdType :: "string option"

text \<open>\<^verbatim>\<open>InstanceDefinition\<close>: the bookkeeping record \<^verbatim>\<open>_instanceMeta\<close> and the properties
  of the resource (\<^verbatim>\<open>resourceType\<close>, \<^verbatim>\<open>id\<close>, \<^verbatim>\<open>meta\<close> and the data fields).\<close>

record InstanceDefinition =
  instanceMeta :: InstanceMeta
  props :: "(string \<times> json) list"

text \<open>\<^verbatim>\<open>obj[key]\<close> for a value that may be a primitive: only an object has
  properties.\<close>

fun getProp :: "json \<Rightarrow> string \<Rightarrow> json option" where
  "getProp (JObj kvs) k = map_of kvs k"
| "getProp _ k = None"

definition resourceType :: "InstanceDefinition \<Rightarrow> json option" where
  "resourceType d = map_of (props d) ''resourceType''"

definition instanceId :: "InstanceDefinition \<Rightarrow> json option" where
  "instanceId d = map_of (props d) ''id''"

text \<open>\<^verbatim>\<open>x == null\<close>: \<^verbatim>\<open>undefined\<close> or \<^verbatim>\<open>null\<close>.\<close>

definition isNullish :: "json option \<Rightarrow> bool" where
  "isNullish x = (x = None \<or> x = Some JNull)"

text \<open>\<^verbatim>\<open>a === b\<close> for two property values.  Primitives compare by value; the arrays and
  objects compared here belong to different instances, so they are never the same
  object.\<close>

definition isPrimitive :: "json \<Rightarrow> bool" where
  "isPrimitive x = (case x of JArr _ \<Rightarrow> False | JObj _ \<Rightarrow> False | _ \<Rightarrow> True)"

definition strictEquals :: "json option \<Rightarrow> json option \<Rightarrow> bool" where
  "strictEquals a b =
     (case a of
        None \<Rightarrow> b = None
      | Some x \<Rightarrow> isPrimitive x \<and> b = Some x)"

subsection \<open>FSH instances and their rules\<close>

type_synonym TextLocation = "nat \<times> nat \<times> nat \<times> nat"

record SourceInfo =
  srcFile :: "string option"
  srcLocation :: "TextLocation option"

text \<open>The value of an assignment rule.  A rule that names an instance
  (\<^verbatim>\<open>isInstance\<close>) carries the name as a string until \<^verbatim>\<open>setAssignedValues\<close> replaces it
  by the instance definition.\<close>

datatype ruleValue =
    VString string
  | VBool bool
  | VNumber int
  | VCode "string option" string
  | VReference string
  | VInstance InstanceDefinition

record AssignmentRule =
  rule_path :: string
  rule_value :: ruleValue
  rule_exactly :: bool
  rule_isInstance :: bool
  rule_sourceInfo :: SourceInfo

record Instance =
  inst_name :: string
  inst_id :: string
  inst_title :: "string option"
  inst_description :: "string option"
  inst_instanceOf :: string
  inst_usage :: InstanceUsage
  inst_mixins :: "string list"
  inst_rules :: "AssignmentRule list"
  inst_sourceInfo :: SourceInfo

subsection \<open>Structure definitions\<close>

text \<open>Of an element definition the exporter reads the id, the path, the minimum
  cardinality, the slice name and the direct children (\<^verbatim>\<open>children(true)\<close>);
  \<open>el_assigned\<close> is the value of its \<^verbatim>\<open>pattern[x]\<close> or \<^verbatim>\<open>fixed[x]\<close>, if it has
  one.\<close>

datatype ElementDefinition =
  ElementDefinition (el_id: string) (el_path: string) (el_min: nat)
    (el_sliceName: "string option") (el_assigned: "json option")
    (el_children: "ElementDefinition list")

text \<open>What \<^verbatim>\<open>fishForFHIR\<close> returns for the \<^verbatim>\<open>instanceOf\<close> of an instance, read through
  \<^verbatim>\<open>StructureDefinition.fromJSON\<close>; \<open>sdef_root\<close> is \<^verbatim>\<open>elements[0]\<close> with the tree below
  it.\<close>

record StructureDefinition =
  sdef_kind :: string
  sdef_type :: string
  sdef_derivation :: "string option"
  sdef_url :: string
  sdef_root :: ElementDefinition

datatype FhirType = TResource | TProfile | TExtension | TType | TInstance

text \<open>A step of a validated path: the element name, the array index and the slice
  names.\<close>

record PathPart =
  pp_base :: string
  pp_index :: "nat option"
  pp_slices :: "string list"

section \<open>Diagnostics\<close>

text \<open>
  The logger is a stream of records, each with a level, a message and, where the code
  passes one, the source span the message is attributed to.  A message is kept by its
  kind and the values the code interpolates into it:
  \<^item> \<open>ImporterReused\<close>: \<^verbatim>\<open>FSHImporter cannot be re-used. Construct a new instance.\<close>
  \<^item> \<open>UnsupportedRule t\<close>: \<^verbatim>\<open>Unsupported rule: t\<close>
  \<^item> \<open>NotAResource n\<close>: \<^verbatim>\<open>Instance n is not an instance of a resource, so it should only
    be used inline on other instances, and it will not be exported to a standalone file.\<close>
  \<^item> \<open>CannotFindInstance v\<close>: \<^verbatim>\<open>Cannot find definition for Instance: v. Skipping rule.\<close>
  \<^item> \<open>RuleError m\<close>: the message \<open>m\<close> of an error thrown while a rule is validated
  \<^item> \<open>MissingRequiredElement i m k\<close>: \<^verbatim>\<open>Element i has minimum cardinality m but occurs
    k time(s).\<close>
  \<^item> \<open>DuplicateInstanceId t i\<close>: \<^verbatim>\<open>Multiple instances of type t with id i. Each
    non-inline instance of a given type must have a unique id.\<close>
  \<^item> \<open>InstanceOfNotDefined n t\<close>: the message of \<^verbatim>\<open>InstanceOfNotDefinedError(n, t, ...)\<close>
  \<^item> \<open>TypeErrorMessage\<close>: the message of a \<^verbatim>\<open>TypeError\<close> of the runtime
  \<^item> \<open>ConvertedInstances n\<close>: \<^verbatim>\<open>Converted n FHIR instances.\<close>
  \<^item> \<open>HelperMessage m\<close>: a message logged by a helper the exporter calls
  \<^item> \<open>GeneratedIgIni\<close>, \<open>CopiedIgIni\<close>, \<open>MergedIgIni\<close>, \<open>TemplateAndIgIni\<close>,
    \<open>IgIniMissingProperty k\<close>, \<open>IgIniDeprecatedProperties ks\<close>: the messages of the
    IG exporter about \<^verbatim>\<open>ig.ini\<close>

  The messages of the helpers are
  \<^item> \<open>InvalidFHIRId i\<close>: \<^verbatim>\<open>The string "i" does not represent a valid FHIR id.\<close>
  \<^item> \<open>SanitizedId i j\<close>: \<^verbatim>\<open>The string "i" represents a valid FHIR name but not a valid
    FHIR id. The id will be exported as "j".\<close>
  \<^item> \<open>HelperText m\<close>: any other text.
\<close>

datatype helperMessage =
    InvalidFHIRId string
  | SanitizedId string string
  | HelperText string

datatype level = Info | Warn | Error

datatype message =
    ImporterReused
  | UnsupportedRule string
  | NotAResource string
  | CannotFindInstance ruleValue
  | RuleError string
  | MissingRequiredElement string nat nat
  | DuplicateInstanceId "json option" "json option"
  | InstanceOfNotDefined string string
  | TypeErrorMessage
  | ConvertedInstances nat
  | HelperMessage helperMessage
  | GeneratedIgIni
  | CopiedIgIni
  | MergedIgIni
  | TemplateAndIgIni
  | IgIniMissingProperty string
  | IgIniDeprecatedProperties "string list"

datatype logEntry = LogEntry level message "SourceInfo option"

text \<open>What a helper logs: level, message and span of each record.\<close>

type_synonym helperLog = "(level \<times> helperMessage \<times> SourceInfo option) list"

definition helperEntries :: "helperLog \<Rightarrow> logEntry list" where
  "helperEntries hl = map (\<lambda>h. LogEntry (fst h) (HelperMessage (fst (snd h))) (snd (snd h))) hl"

section \<open>The importer (FSHImporter)\<close>

subsection \<open>Parse tree and document\<close>

text \<open>
  The parse tree of a document, as far as \<^verbatim>\<open>visitDoc\<close> walks it: a document is a list
  of entities, an entity is an alias, a profile or an extension.  A context carries the
  text of its tokens and the span \<^verbatim>\<open>extractStartStop\<close> computes for it.  The rule
  contexts of a profile are of a type \<open>'c\<close> left open, and so are the rules \<open>'r\<close> they
  are turned into: \<^verbatim>\<open>visitSdRule\<close> is a parameter of the model, a function from the
  aliases collected so far and a rule context to the rules and the diagnostics it
  produces.
\<close>

datatype descriptionContext = STRING string | MULTILINE_STRING string

datatype sdMetadataContext =
    IdContext string
  | ParentContext string
  | TitleContext string
  | DescriptionContext descriptionContext
  | OtherMetadataContext string

record 'c sdContext =
  SEQUENCE :: string
  startStop :: TextLocation
  sdMetadata :: "sdMetadataContext list"
  sdRule :: "'c list"

datatype 'c entityContext =
    AliasContext string string
  | ProfileContext "'c sdContext"
  | ExtensionContext "'c sdContext"

text \<open>A profile or an extension.  A field the constructor leaves at its default is
  \<open>None\<close>.\<close>

record 'r SdEntity =
  sd_name :: string
  sd_id :: "string option"
  sd_parent :: "string option"
  sd_title :: "string option"
  sd_description :: "string option"
  sd_rules :: "'r list"
  sd_sourceInfo :: SourceInfo

text \<open>The three maps of a document are JavaScript \<^verbatim>\<open>Map\<close>s: association lists in
  insertion order, \<^verbatim>\<open>set\<close> being \<^const>\<open>AList.update\<close>.\<close>

record 'r FSHDocument =
  docFile :: string
  aliases :: "(string \<times> string) list"
  profiles :: "(string \<times> 'r SdEntity) list"
  extensions :: "(string \<times> 'r SdEntity) list"

record 'r FSHImporter =
  importerFile :: string
  used :: bool
  doc :: "'r FSHDocument"

type_synonym ('c, 'r) ruleVisitor = "(string \<times> string) list \<Rightarrow> 'c \<Rightarrow> 'r list \<times> logEntry list"

text \<open>\<^verbatim>\<open>new FSHImporter(file)\<close>.\<close>

definition newFSHImporter :: "string \<Rightarrow> 'r FSHImporter" where
  "newFSHImporter f =
     \<lparr>importerFile = f, used = False,
      doc = \<lparr>docFile = f, aliases = [], profiles = [], extensions = []\<rparr>\<rparr>"

subsection \<open>The visitor\<close>

definition visitAlias :: "string \<Rightarrow> string \<Rightarrow> 'r FSHImporter \<Rightarrow> 'r FSHImporter" where
  "visitAlias k v imp = imp\<lparr>doc := (doc imp)\<lparr>aliases := AList.update k v (aliases (doc imp))\<rparr>\<rparr>"

definition aliasAwareValue :: "'r FSHImporter \<Rightarrow> string \<Rightarrow> string" where
  "aliasAwareValue imp v = (case map_of (aliases (doc imp)) v of Some u \<Rightarrow> u | None \<Rightarrow> v)"

text \<open>\<^verbatim>\<open>str.slice(1, str.length - 1)\<close>.\<close>

definition extractString :: "string \<Rightarrow> string" where
  "extractString str = take (length str - 1 - 1) (drop 1 str)"

definition visitDescription :: "descriptionContext \<Rightarrow> string" where
  "visitDescription ctx =
     (case ctx of STRING s \<Rightarrow> extractString s | MULTILINE_STRING s \<Rightarrow> extractMultilineString s)"

datatype SdMetadataKey = KeyId | KeyParent | KeyTitle | KeyDescription | KeyUnknown

definition visitSdMetadata :: "'r FSHImporter \<Rightarrow> sdMetadataContext \<Rightarrow> SdMetadataKey \<times> string" where
  "visitSdMetadata imp ctx =
     (case ctx of
        IdContext s \<Rightarrow> (KeyId, s)
      | ParentContext s \<Rightarrow> (KeyParent, aliasAwareValue imp s)
      | TitleContext s \<Rightarrow> (KeyTitle, extractString s)
      | DescriptionContext d \<Rightarrow> (KeyDescription, visitDescription d)
      | OtherMetadataContext t \<Rightarrow> (KeyUnknown, t))"

definition setMetadata :: "'r SdEntity \<Rightarrow> SdMetadataKey \<times> string \<Rightarrow> 'r SdEntity" where
  "setMetadata d pair =
     (case fst pair of
        KeyId \<Rightarrow> d\<lparr>sd_id := Some (snd pair)\<rparr>
      | KeyParent \<Rightarrow> d\<lparr>sd_parent := Some (snd pair)\<rparr>
      | KeyTitle \<Rightarrow> d\<lparr>sd_title := Some (snd pair)\<rparr>
      | KeyDescription \<Rightarrow> d\<lparr>sd_description := Some (snd pair)\<rparr>
      | KeyUnknown \<Rightarrow> d)"

text \<open>The loop over the rule contexts: the rules of each are pushed onto the
  definition, the diagnostics of each are logged.\<close>

fun visitSdRules ::
  "('c, 'r) ruleVisitor \<Rightarrow> (string \<times> string) list \<Rightarrow> 'c list \<Rightarrow> 'r list \<times> logEntry list" where
  "visitSdRules visitSdRule al [] = ([], [])"
| "visitSdRules visitSdRule al (c # cs) =
     (let (rs, lg) = visitSdRule al c;
          (rs', lg') = visitSdRules visitSdRule al cs
      in (rs @ rs', lg @ lg'))"

definition parseProfileOrExtension ::
  "('c, 'r) ruleVisitor \<Rightarrow> 'r FSHImporter \<Rightarrow> 'r SdEntity \<Rightarrow> sdMetadataContext list \<Rightarrow> 'c list
     \<Rightarrow> 'r SdEntity \<times> logEntry list" where
  "parseProfileOrExtension visitSdRule imp d metaCtx ruleCtx =
     (let d1 = foldl setMetadata d (map (visitSdMetadata imp) metaCtx);
          (rs, lg) = visitSdRules visitSdRule (aliases (doc imp)) ruleCtx
      in (d1\<lparr>sd_rules := sd_rules d1 @ rs\<rparr>, lg))"

text \<open>\<^verbatim>\<open>new Profile(name).withLocation(...).withFile(this.file)\<close>, and the same for
  an extension.\<close>

definition newSdEntity :: "'r FSHImporter \<Rightarrow> 'c sdContext \<Rightarrow> 'r SdEntity" where
  "newSdEntity imp ctx =
     \<lparr>sd_name = SEQUENCE ctx, sd_id = None, sd_parent = None, sd_title = None,
      sd_description = None, sd_rules = [],
      sd_sourceInfo = \<lparr>srcFile = Some (importerFile imp), srcLocation = Some (startStop ctx)\<rparr>\<rparr>"

definition visitProfile ::
  "('c, 'r) ruleVisitor \<Rightarrow> 'c sdContext \<Rightarrow> 'r FSHImporter \<Rightarrow> 'r FSHImporter \<times> logEntry list" where
  "visitProfile visitSdRule ctx imp =
     (let (profile, lg) =
            parseProfileOrExtension visitSdRule imp (newSdEntity imp ctx) (sdMetadata ctx) (sdRule ctx)
      in (imp\<lparr>doc := (doc imp)\<lparr>profiles := AList.update (sd_name profile) profile (profiles (doc imp))\<rparr>\<rparr>,
          lg))"

definition visitExtension ::
  "('c, 'r) ruleVisitor \<Rightarrow> 'c sdContext \<Rightarrow> 'r FSHImporter \<Rightarrow> 'r FSHImporter \<times> logEntry list" where
  "visitExtension visitSdRule ctx imp =
     (let (extension, lg) =
            parseProfileOrExtension visitSdRule imp (newSdEntity imp ctx) (sdMetadata ctx) (sdRule ctx)
      in (imp\<lparr>doc := (doc imp)\<lparr>extensions :=
                 AList.update (sd_name extension) extension (extensions (doc imp))\<rparr>\<rparr>,
          lg))"

definition visitEntity ::
  "('c, 'r) ruleVisitor \<Rightarrow> 'c entityContext \<Rightarrow> 'r FSHImporter \<Rightarrow> 'r FSHImporter \<times> logEntry list" where
  "visitEntity visitSdRule ctx imp =
     (case ctx of
        AliasContext k v \<Rightarrow> (visitAlias k v imp, [])
      | ProfileContext c \<Rightarrow> visitProfile visitSdRule c imp
      | ExtensionContext c \<Rightarrow> visitExtension visitSdRule c imp)"

text \<open>The first loop of \<^verbatim>\<open>visitDoc\<close>: the aliases only.\<close>

fun collectAliases :: "'c entityContext list \<Rightarrow> 'r FSHImporter \<Rightarrow> 'r FSHImporter" where
  "collectAliases [] imp = imp"
| "collectAliases (e # es) imp =
     collectAliases es (case e of AliasContext k v \<Rightarrow> visitAlias k v imp | _ \<Rightarrow> imp)"

text \<open>The second loop: every entity.\<close>

fun visitEntities ::
  "('c, 'r) ruleVisitor \<Rightarrow> 'c entityContext list \<Rightarrow> 'r FSHImporter \<Rightarrow> 'r FSHImporter \<times> logEntry list" where
  "visitEntities visitSdRule [] imp = (imp, [])"
| "visitEntities visitSdRule (e # es) imp =
     (let (imp1, lg1) = visitEntity visitSdRule e imp;
          (imp2, lg2) = visitEntities visitSdRule es imp1
      in (imp2, lg1 @ lg2))"

text \<open>\<^verbatim>\<open>visitDoc\<close> returns the document, or nothing (\<^verbatim>\<open>undefined\<close>) on a used
  importer; the second component is the importer after the call, the third the
  diagnostics the call logs.\<close>

definition visitDoc ::
  "('c, 'r) ruleVisitor \<Rightarrow> 'c entityContext list \<Rightarrow> 'r FSHImporter
     \<Rightarrow> 'r FSHDocument option \<times> 'r FSHImporter \<times> logEntry list" where
  "visitDoc visitSdRule ctx imp =
     (if used imp then (None, imp, [LogEntry Error ImporterReused None])
      else
        (let imp1 = imp\<lparr>used := True\<rparr>;
             imp2 = collectAliases ctx imp1;
             (imp3, lg) = visitEntities visitSdRule ctx imp2
         in (Some (doc imp3), imp3, lg)))"

subsection \<open>An example document\<close>

text \<open>A rule visitor for rule contexts that are numbers: the context is the rule, and
  the context \<open>0\<close> is a rule that is not supported.\<close>

definition numberRules :: "(nat, nat) ruleVisitor" where
  "numberRules al c = ([c], if c = 0 then [LogEntry Warn (UnsupportedRule ''0'') None] else [])"

text \<open>A profile that names its parent by an alias defined after it.\<close>

definition exampleDoc :: "nat entityContext list" where
  "exampleDoc =
     [ProfileContext \<lparr>SEQUENCE = ''ObservationProfile'', startStop = (2, 7, 4, 20),
        sdMetadata = [ParentContext ''OBS''], sdRule = [0, 1]\<rparr>,
      AliasContext ''OBS'' ''http://hl7.org/fhir/StructureDefinition/Observation'']"

section \<open>The instance exporter (InstanceExporter)\<close>

subsection \<open>Collaborators\<close>

text \<open>
  The exporter works on a tank, a package and a fisher, and calls helpers of
  \<^verbatim>\<open>fhirtypes/common\<close>, \<^verbatim>\<open>StructureDefinition\<close> and \<^verbatim>\<open>InstanceDefinition\<close>.  The
  collaborators are the fields of an environment, so that what is proved of the exporter
  holds whatever they compute:
  \<^item> \<open>tank\<close>: \<^verbatim>\<open>tank.getAllInstances()\<close>;
  \<^item> \<open>fisher\<close>: \<^verbatim>\<open>this.fisher.fishForFHIR(item, ...types)\<close> read through
    \<^verbatim>\<open>StructureDefinition.fromJSON\<close>;
  \<^item> \<open>applyMixinRules\<close>, \<open>applyInsertRules\<close>: the rules of the instance after the
    expansion, and the diagnostics of the expansion;
  \<^item> \<open>replaceReferences\<close>: the rule with its reference or code resolved;
  \<^item> \<open>validateValueAtPath\<close>: the path parts and the value to assign, or the message of
    the error it throws; it may change the structure definition, which is returned;
  \<^item> \<open>setImpliedPropertiesOnInstance\<close>, \<open>setPropertyOnInstance\<close>, \<open>cleanResource\<close>:
    the properties of the instance after the call;
  \<^item> \<open>validateId\<close>: the properties after the call and its diagnostics.

  The diagnostics of a helper are helper messages: the messages of the exporter itself
  are logged by the exporter only.
\<close>

record env =
  tank :: "Instance list"
  fisher :: "string \<Rightarrow> FhirType list \<Rightarrow> StructureDefinition option"
  applyMixinRules :: "Instance \<Rightarrow> AssignmentRule list \<times> helperLog"
  applyInsertRules :: "Instance \<Rightarrow> AssignmentRule list \<times> helperLog"
  replaceReferences :: "AssignmentRule \<Rightarrow> AssignmentRule"
  validateValueAtPath ::
    "StructureDefinition \<Rightarrow> string \<Rightarrow> ruleValue \<Rightarrow> json option list
       \<Rightarrow> (string + PathPart list \<times> json) \<times> StructureDefinition"
  setImpliedPropertiesOnInstance ::
    "(string \<times> json) list \<Rightarrow> StructureDefinition \<Rightarrow> string list \<Rightarrow> (string \<times> json) list"
  setPropertyOnInstance ::
    "(string \<times> json) list \<Rightarrow> PathPart list \<Rightarrow> json \<Rightarrow> (string \<times> json) list"
  validateId :: "(string \<times> json) list \<Rightarrow> SourceInfo \<Rightarrow> (string \<times> json) list \<times> helperLog"
  cleanResource :: "(string \<times> json) list \<Rightarrow> (string \<times> json) list"

text \<open>The state the exporter changes: the instances of the package, in the order they
  were pushed, and the log.\<close>

record exporterState =
  pkg_instances :: "InstanceDefinition list"
  logger :: "logEntry list"

datatype exn =
    InstanceOfNotDefinedError string string SourceInfo
  | TypeError

text \<open>A call returns a value, throws, or needs more fuel than it was given (the model
  bounds the depth of the re-entrant export by a counter).\<close>

datatype 'a outcome = Returned 'a | Thrown exn | OutOfFuel

definition logTo :: "logEntry list \<Rightarrow> exporterState \<Rightarrow> exporterState" where
  "logTo es st = st\<lparr>logger := logger st @ es\<rparr>"

subsection \<open>Lookups\<close>

text \<open>Modelled from the spec: \<^verbatim>\<open>Package.fish(item, Type.Instance)\<close> and
  \<^verbatim>\<open>FSHTank.fish(item, Type.Instance)\<close> are not in the sources; the lookup matches by
  name or id and prefers the first match.\<close>

definition pkg_fish :: "InstanceDefinition list \<Rightarrow> string \<Rightarrow> InstanceDefinition option" where
  "pkg_fish insts item =
     find (\<lambda>i. meta_name (instanceMeta i) = item \<or> instanceId i = Some (JStr item)) insts"

definition tank_fish :: "Instance list \<Rightarrow> string \<Rightarrow> Instance option" where
  "tank_fish insts item = find (\<lambda>i. inst_name i = item \<or> inst_id i = item) insts"

subsection \<open>Paths\<close>

text \<open>\<^verbatim>\<open>path.replace(/\[0+\]/g, '')\<close>.  \<open>matchZeroIndex s\<close> is the rest of \<open>s\<close> after a
  leading \<^verbatim>\<open>0+]\<close>, if \<open>s\<close> starts so.\<close>

definition matchZeroIndex :: "string \<Rightarrow> string option" where
  "matchZeroIndex s =
     (case dropWhile (\<lambda>c. c = CHR ''0'') s of
        [] \<Rightarrow> None
      | c # rest \<Rightarrow> if c = CHR '']'' \<and> takeWhile (\<lambda>c. c = CHR ''0'') s \<noteq> [] then Some rest else None)"

function removeZeroIndices :: "string \<Rightarrow> string" where
  "removeZeroIndices [] = []"
| "removeZeroIndices (c # cs) =
     (if c = CHR ''[''
      then (case matchZeroIndex cs of
              Some rest \<Rightarrow> removeZeroIndices rest
            | None \<Rightarrow> c # removeZeroIndices cs)
      else c # removeZeroIndices cs)"
  by pat_completeness auto
termination
proof (relation "measure length")
  fix c :: char and cs rest :: string
  assume "matchZeroIndex cs = Some rest"
  then have "\<exists>d. dropWhile (\<lambda>c. c = CHR ''0'') cs = d # rest"
    by (auto simp: matchZeroIndex_def split: list.splits if_splits)
  then obtain d where "dropWhile (\<lambda>c. c = CHR ''0'') cs = d # rest" ..
  moreover have "length (dropWhile (\<lambda>c. c = CHR ''0'') cs) \<le> length cs"
    by (rule length_dropWhile_le)
  ultimately show "(rest, c # cs) \<in> measure length" by simp
qed auto

text \<open>Modelled from the spec: \<^verbatim>\<open>splitOnPathPeriods\<close> is not in the sources.  A path is
  a dotted element specifier whose steps may carry bracketed suffixes; a period
  inside brackets (the next bracket after it closes one) does not separate steps.\<close>

definition insideBrackets :: "string \<Rightarrow> bool" where
  "insideBrackets rest =
     (case dropWhile (\<lambda>c. c \<noteq> CHR ''['' \<and> c \<noteq> CHR '']'') rest of
        [] \<Rightarrow> False
      | c # _ \<Rightarrow> c = CHR '']'')"

fun splitOnPathPeriods :: "string \<Rightarrow> string list" where
  "splitOnPathPeriods [] = [[]]"
| "splitOnPathPeriods (c # cs) =
     (if c = CHR ''.'' \<and> \<not> insideBrackets cs then [] # splitOnPathPeriods cs
      else (case splitOnPathPeriods cs of
              [] \<Rightarrow> [[c]]
            | p # ps \<Rightarrow> (c # p) # ps))"

text \<open>\<^verbatim>\<open>parts.join('.')\<close>.\<close>

fun joinPath :: "string list \<Rightarrow> string" where
  "joinPath [] = []"
| "joinPath [p] = p"
| "joinPath (p # ps) = p @ CHR ''.'' # joinPath ps"

text \<open>\<^verbatim>\<open>s.startsWith(p)\<close> and \<^verbatim>\<open>s.endsWith(p)\<close>.\<close>

definition startsWith :: "string \<Rightarrow> string \<Rightarrow> bool" where
  "startsWith s p = (take (length p) s = p)"

definition endsWith :: "string \<Rightarrow> string \<Rightarrow> bool" where
  "endsWith s p = (length p \<le> length s \<and> drop (length s - length p) s = p)"

text \<open>\<^verbatim>\<open>arr[i] = v\<close> on an array that may be shorter than \<open>i\<close>: the holes read as
  \<^verbatim>\<open>undefined\<close>.\<close>

definition sparseSet :: "'a option list \<Rightarrow> nat \<Rightarrow> 'a option \<Rightarrow> 'a option list" where
  "sparseSet arr i v = (arr @ replicate (Suc i - length arr) None)[i := v]"

subsection \<open>Required elements\<close>

text \<open>A string or an optional string in a condition: \<^verbatim>\<open>undefined\<close> and the empty string
  are false.\<close>

definition truthy :: "string option \<Rightarrow> bool" where
  "truthy s = (case s of None \<Rightarrow> False | Some t \<Rightarrow> t \<noteq> [])"

text \<open>The loop over the choice slices: the instance is read at each slice name until a
  value that is not null is found.\<close>

fun choiceLoop :: "json \<Rightarrow> ElementDefinition list \<Rightarrow> json option \<Rightarrow> json option" where
  "choiceLoop instance [] cur = cur"
| "choiceLoop instance (choiceSlice # rest) cur =
     (let v = getProp instance (case el_sliceName choiceSlice of Some s \<Rightarrow> s | None \<Rightarrow> [])
      in if \<not> isNullish v then v else choiceLoop instance rest v)"

text \<open>What the instance holds for a child element: the property with the underscore
  if there is one, the property itself otherwise, and for a choice element that is
  missing the first choice slice with a value.\<close>

definition instanceChildOf :: "json \<Rightarrow> ElementDefinition \<Rightarrow> ElementDefinition list \<Rightarrow> json option" where
  "instanceChildOf inst child children =
     (let childPathEnd = last (splitOn (CHR ''.'') (el_path child));
          underscored = getProp inst (CHR ''_'' # childPathEnd);
          found = (if isNullish underscored then getProp inst childPathEnd else underscored)
      in if isNullish found \<and> endsWith childPathEnd ''[x]''
         then choiceLoop inst
                (filter (\<lambda>c. el_path c = el_path child \<and> truthy (el_sliceName c)) children) found
         else found)"

text \<open>The items of an array that count for a child element: all of them, or those of
  the slice when the child is a slice.\<close>

definition sliceItems :: "ElementDefinition \<Rightarrow> json list \<Rightarrow> json list" where
  "sliceItems child arr =
     filter (\<lambda>arrayEl. \<not> truthy (el_sliceName child) \<or>
                strictEquals (getProp arrayEl ''_sliceName'') (map_option JStr (el_sliceName child))) arr"

text \<open>The values the children of the child element are validated in: the items of an
  array that are not null, or the value itself if it is not null.\<close>

definition childInstances :: "json option \<Rightarrow> ElementDefinition \<Rightarrow> json list" where
  "childInstances instanceChild child =
     (case instanceChild of
        None \<Rightarrow> []
      | Some (JArr arr) \<Rightarrow> filter (\<lambda>arrayEl. arrayEl \<noteq> JNull) (sliceItems child arr)
      | Some v \<Rightarrow> if v \<noteq> JNull then [v] else [])"

text \<open>The error for a child element that is required and missing, or that occurs less
  often than its minimum.\<close>

definition cardinalityErrors :: "json option \<Rightarrow> ElementDefinition \<Rightarrow> Instance \<Rightarrow> logEntry list" where
  "cardinalityErrors instanceChild child fshDefinition =
     (case instanceChild of
        Some (JArr arr) \<Rightarrow>
          (if length (sliceItems child arr) < el_min child
           then [LogEntry Error
                   (MissingRequiredElement (el_id child) (el_min child) (length (sliceItems child arr)))
                   (Some (inst_sourceInfo fshDefinition))]
           else [])
      | _ \<Rightarrow>
          (if el_min child > 0 \<and> isNullish instanceChild
           then [LogEntry Error (MissingRequiredElement (el_id child) (el_min child) 0)
                   (Some (inst_sourceInfo fshDefinition))]
           else []))"

text \<open>\<^verbatim>\<open>validateRequiredChildElements\<close>: for every direct child of the element, first
  the validation of the children of the child, then the error for the child itself.\<close>

fun validateRequiredChildElements :: "json \<Rightarrow> ElementDefinition \<Rightarrow> Instance \<Rightarrow> logEntry list" where
  "validateRequiredChildElements inst (ElementDefinition eid epath emin esn eassigned children) fshDefinition =
     concat (map (\<lambda>child.
        concat (map (\<lambda>v. validateRequiredChildElements v child fshDefinition)
                  (childInstances (instanceChildOf inst child children) child))
        @ cardinalityErrors (instanceChildOf inst child children) child fshDefinition) children)"

definition validateRequiredElements ::
  "InstanceDefinition \<Rightarrow> StructureDefinition \<Rightarrow> Instance \<Rightarrow> logEntry list" where
  "validateRequiredElements instanceDef sd fshDefinition =
     validateRequiredChildElements (JObj (props instanceDef)) (sdef_root sd) fshDefinition"

subsection \<open>fishForFHIR\<close>

text \<open>
  The methods of the exporter call each other through \<^verbatim>\<open>this\<close>:
  \<^verbatim>\<open>exportInstance\<close> calls \<^verbatim>\<open>setAssignedValues\<close>, which calls \<^verbatim>\<open>fishForFHIR\<close>, which
  calls \<^verbatim>\<open>exportInstance\<close> for an instance of the tank that the package does not hold
  yet.  Each method takes the \<^verbatim>\<open>exportInstance\<close> it calls as its first argument
  \<open>exp\<close>; \<open>exportInstance\<close> below closes the loop.
\<close>

type_synonym exporter =
  "Instance \<Rightarrow> exporterState \<Rightarrow> InstanceDefinition option outcome \<times> exporterState"

definition fishForFHIR ::
  "exporter \<Rightarrow> env \<Rightarrow> string \<Rightarrow> exporterState \<Rightarrow> InstanceDefinition option outcome \<times> exporterState" where
  "fishForFHIR exp e item st =
     (case pkg_fish (pkg_instances st) item of
        Some result \<Rightarrow> (Returned (Some result), st)
      | None \<Rightarrow>
          (case tank_fish (tank e) item of
             None \<Rightarrow> (Returned None, st)
           | Some fshDefinition \<Rightarrow>
               (case exp fshDefinition st of
                  (Returned _, st1) \<Rightarrow> (Returned (pkg_fish (pkg_instances st1) item), st1)
                | (Thrown x, st1) \<Rightarrow> (Thrown x, st1)
                | (OutOfFuel, st1) \<Rightarrow> (OutOfFuel, st1))))"

subsection \<open>setAssignedValues\<close>

text \<open>The \<^verbatim>\<open>filter\<close> that converts the names in instance rules to instances.  A rule
  whose instance is not found is dropped with an error; an error thrown by the export of
  the named instance leaves the loop.\<close>

fun convertInstanceRules ::
  "exporter \<Rightarrow> env \<Rightarrow> AssignmentRule list \<Rightarrow> exporterState
     \<Rightarrow> AssignmentRule list outcome \<times> exporterState" where
  "convertInstanceRules exp e [] st = (Returned [], st)"
| "convertInstanceRules exp e (r # rs) st =
     (if rule_isInstance r then
        (case (case rule_value r of
                 VString item \<Rightarrow> fishForFHIR exp e item st
               | _ \<Rightarrow> (Returned None, st)) of
           (Returned (Some instance), st1) \<Rightarrow>
             (case convertInstanceRules exp e rs st1 of
                (Returned rs', st2) \<Rightarrow> (Returned (r\<lparr>rule_value := VInstance instance\<rparr> # rs'), st2)
              | other \<Rightarrow> other)
         | (Returned None, st1) \<Rightarrow>
             convertInstanceRules exp e rs
               (logTo [LogEntry Error (CannotFindInstance (rule_value r)) (Some (rule_sourceInfo r))] st1)
         | (Thrown x, st1) \<Rightarrow> (Thrown x, st1)
         | (OutOfFuel, st1) \<Rightarrow> (OutOfFuel, st1))
      else
        (case convertInstanceRules exp e rs st of
           (Returned rs', st2) \<Rightarrow> (Returned (r # rs'), st2)
         | other \<Rightarrow> other))"

text \<open>The paths whose sub-paths are to be validated against another resource type.
  \<^verbatim>\<open>r.value.meta?.profile[0] ?? r.value.resourceType\<close> throws a \<^verbatim>\<open>TypeError\<close> when
  \<^verbatim>\<open>meta\<close> is there and has no \<^verbatim>\<open>profile\<close>.\<close>

definition inlineInstanceOf :: "InstanceDefinition \<Rightarrow> exn + json option" where
  "inlineInstanceOf d =
     (case map_of (props d) ''meta'' of
        None \<Rightarrow> Inr (resourceType d)
      | Some JNull \<Rightarrow> Inr (resourceType d)
      | Some m \<Rightarrow>
          (case getProp m ''profile'' of
             None \<Rightarrow> Inl TypeError
           | Some JNull \<Rightarrow> Inl TypeError
           | Some (JArr (p # ps)) \<Rightarrow> if p = JNull then Inr (resourceType d) else Inr (Some p)
           | Some (JStr (c # cs)) \<Rightarrow> Inr (Some (JStr [c]))
           | Some _ \<Rightarrow> Inr (resourceType d)))"

fun inlineResourcePaths ::
  "AssignmentRule list \<Rightarrow> exn + (string \<times> json option) list" where
  "inlineResourcePaths [] = Inr []"
| "inlineResourcePaths (r # rs) =
     (case (case rule_value r of
              VInstance d \<Rightarrow>
                if rule_isInstance r
                then (case inlineInstanceOf d of
                        Inl x \<Rightarrow> Inl x
                      | Inr t \<Rightarrow> Inr [(rule_path r, t)])
                else Inr []
            | _ \<Rightarrow> Inr []) of
        Inl x \<Rightarrow> Inl x
      | Inr first \<Rightarrow>
          (let second =
                 (case rule_value r of
                    VString s \<Rightarrow>
                      if endsWith (rule_path r) ''.resourceType''
                      then [(joinPath (butlast (splitOnPathPeriods (rule_path r))), Some (JStr s))]
                      else []
                  | _ \<Rightarrow> [])
           in (case inlineResourcePaths rs of
                 Inl x \<Rightarrow> Inl x
               | Inr rest \<Rightarrow> Inr (first @ second @ rest))))"

text \<open>The array of resource types that matches the path of a rule.\<close>

definition inlineResourceTypes :: "(string \<times> json option) list \<Rightarrow> AssignmentRule \<Rightarrow> json option list" where
  "inlineResourceTypes irps rule =
     foldl (\<lambda>arr m. sparseSet arr (length (splitOnPathPeriods (fst m)) - 1) (snd m)) []
       (filter (\<lambda>i. startsWith (rule_path rule) (fst i @ ''.'') \<and>
                     rule_path rule \<noteq> fst i @ ''.resourceType'') irps)"

text \<open>The loop that validates the rules and records every valid one in \<^verbatim>\<open>ruleMap\<close>, a
  \<^verbatim>\<open>Map\<close> from the path of the rule.  The accumulator is the map, the structure
  definition and the errors logged.\<close>

type_synonym ruleMap = "(string \<times> PathPart list \<times> json) list"

fun recordRules ::
  "env \<Rightarrow> (string \<times> json option) list \<Rightarrow> AssignmentRule list
     \<Rightarrow> ruleMap \<times> StructureDefinition \<times> logEntry list
     \<Rightarrow> ruleMap \<times> StructureDefinition \<times> logEntry list" where
  "recordRules e irps [] acc = acc"
| "recordRules e irps (rule # rs) (rm, sd, lg) =
     (case validateValueAtPath e sd (rule_path rule) (rule_value rule) (inlineResourceTypes irps rule) of
        (Inr validatedRule, sd') \<Rightarrow>
          recordRules e irps rs (AList.update (rule_path rule) validatedRule rm, sd', lg)
      | (Inl msg, sd') \<Rightarrow>
          recordRules e irps rs
            (rm, sd', lg @ [LogEntry Error (RuleError msg) (Some (rule_sourceInfo rule))]))"

text \<open>\<^verbatim>\<open>ruleMap.forEach(rule => setPropertyOnInstance(instanceDef, rule.pathParts,
  rule.assignedValue))\<close>.\<close>

definition applyRuleMap :: "env \<Rightarrow> ruleMap \<Rightarrow> (string \<times> json) list \<Rightarrow> (string \<times> json) list" where
  "applyRuleMap e rm ps = foldl (\<lambda>p entry. setPropertyOnInstance e p (fst (snd entry)) (snd (snd entry))) ps rm"

text \<open>\<^verbatim>\<open>setAssignedValues\<close> returns the properties of the instance definition after the
  assignments, and the structure definition as the validation left it.\<close>

definition setAssignedValues ::
  "exporter \<Rightarrow> env \<Rightarrow> Instance \<Rightarrow> InstanceDefinition \<Rightarrow> StructureDefinition \<Rightarrow> exporterState
     \<Rightarrow> ((string \<times> json) list \<times> StructureDefinition) outcome \<times> exporterState" where
  "setAssignedValues exp e fshInstanceDef instanceDef instanceOfStructureDefinition st =
     (let (inserted, lg0) = applyInsertRules e fshInstanceDef;
          rules0 = map (\<lambda>r. r\<lparr>rule_path := removeZeroIndices (rule_path r)\<rparr>) inserted;
          rules1 = map (replaceReferences e) rules0
      in (case convertInstanceRules exp e rules1 (logTo (helperEntries lg0) st) of
            (Returned rules2, st1) \<Rightarrow>
              (case inlineResourcePaths rules2 of
                 Inl x \<Rightarrow> (Thrown x, st1)
               | Inr irps \<Rightarrow>
                   (let (rm, sd1, lg1) = recordRules e irps rules2 ([], instanceOfStructureDefinition, []);
                        paths = [] # map rule_path rules2;
                        implied = setImpliedPropertiesOnInstance e (props instanceDef) sd1 paths
                    in (Returned (applyRuleMap e rm implied, sd1), logTo lg1 st1)))
          | (Thrown x, st1) \<Rightarrow> (Thrown x, st1)
          | (OutOfFuel, st1) \<Rightarrow> (OutOfFuel, st1)))"

subsection \<open>exportInstance\<close>

text \<open>The check for another instance of the same type with the same id: \<open>k\<close> is the
  position of \<^verbatim>\<open>instanceDef\<close> in the package, which tells it from the others.\<close>

definition hasDuplicateId :: "InstanceDefinition list \<Rightarrow> nat \<Rightarrow> InstanceDefinition \<Rightarrow> bool" where
  "hasDuplicateId insts k instanceDef =
     (meta_usage (instanceMeta instanceDef) \<noteq> Some Inline \<and>
      list_ex (\<lambda>j. meta_usage (instanceMeta (insts ! j)) \<noteq> Some Inline \<and>
                   strictEquals (resourceType instanceDef) (resourceType (insts ! j)) \<and>
                   strictEquals (instanceId instanceDef) (instanceId (insts ! j)) \<and>
                   j \<noteq> k) [0..<length insts])"

text \<open>\<^verbatim>\<open>new InstanceDefinition()\<close> with the metadata \<^verbatim>\<open>exportInstance\<close> sets before it
  pushes the definition to the package.\<close>

definition newInstanceDefinition :: "Instance \<Rightarrow> StructureDefinition \<Rightarrow> bool \<Rightarrow> InstanceDefinition" where
  "newInstanceDefinition fshDefinition sd isResource =
     \<lparr>instanceMeta =
        \<lparr>meta_name = inst_id fshDefinition,
         meta_title = (if truthy (inst_title fshDefinition) then inst_title fshDefinition else None),
         meta_description =
           (if truthy (inst_description fshDefinition) then inst_description fshDefinition else None),
         meta_usage = Some (inst_usage fshDefinition),
         meta_sdType = (if isResource then None else Some (sdef_type sd))\<rparr>,
      props =
        (if isResource
         then [(''resourceType'', JStr (sdef_type sd)), (''id'', JStr (inst_id fshDefinition))]
         else [])
        @ (if isResource \<and> sdef_derivation sd = Some ''constraint''
           then [(''meta'', JObj [(''profile'', JArr [JStr (sdef_url sd)])])]
           else [])\<rparr>"

text \<open>
  The end of \<^verbatim>\<open>exportInstance\<close>, from \<^verbatim>\<open>validateId\<close> on.  \<open>k\<close> is the position at
  which the definition was pushed to the package, \<open>props1\<close> are its properties after
  \<^verbatim>\<open>setAssignedValues\<close>.  \<^verbatim>\<open>validateId\<close> and \<^verbatim>\<open>cleanResource\<close> change the pushed
  definition in place: the definition is written back at position \<open>k\<close> before the check
  for a duplicate id reads the package.
\<close>

definition finishExport ::
  "env \<Rightarrow> Instance \<Rightarrow> nat \<Rightarrow> InstanceDefinition \<Rightarrow> (string \<times> json) list \<Rightarrow> StructureDefinition
     \<Rightarrow> exporterState \<Rightarrow> InstanceDefinition \<times> exporterState" where
  "finishExport e fshDefinition k instanceDef0 props1 sd1 st3 =
     (let (props2, lgId) = validateId e props1 (inst_sourceInfo fshDefinition);
          lgReq = validateRequiredElements (instanceDef0\<lparr>props := props2\<rparr>) sd1 fshDefinition;
          instanceDef = instanceDef0\<lparr>props := cleanResource e props2\<rparr>;
          st4 = (logTo (helperEntries lgId @ lgReq) st3)
                  \<lparr>pkg_instances := (pkg_instances st3)[k := instanceDef]\<rparr>;
          st5 = (if hasDuplicateId (pkg_instances st4) k instanceDef
                 then logTo [LogEntry Error
                               (DuplicateInstanceId (resourceType instanceDef) (instanceId instanceDef))
                               (Some (inst_sourceInfo fshDefinition))] st4
                 else st4)
      in (instanceDef, st5))"

text \<open>
  \<^verbatim>\<open>exportInstance\<close>.  The definition is pushed to the package at position \<open>k\<close> before
  its values are assigned; the export of the instances it names runs on that package,
  and nothing else reads the package until the assignments are done.  The assignment
  \<^verbatim>\<open>fshDefinition.usage = 'Inline'\<close> is kept in the local copy of the instance.
\<close>

definition warnsNotAResource :: "Instance \<Rightarrow> StructureDefinition \<Rightarrow> bool" where
  "warnsNotAResource fshDefinition sd =
     (sdef_kind sd \<noteq> ''resource'' \<and> inst_usage fshDefinition \<noteq> Inline)"

text \<open>The warning for an instance of something that is not a resource, and the usage
  the instance is given.\<close>

definition warned :: "Instance \<Rightarrow> StructureDefinition \<Rightarrow> exporterState \<Rightarrow> exporterState" where
  "warned fshDefinition sd st =
     (if warnsNotAResource fshDefinition sd
      then logTo [LogEntry Warn (NotAResource (inst_name fshDefinition))
                    (Some (inst_sourceInfo fshDefinition))] st
      else st)"

definition forcedUsage :: "Instance \<Rightarrow> StructureDefinition \<Rightarrow> Instance" where
  "forcedUsage fshDefinition sd =
     (if warnsNotAResource fshDefinition sd then fshDefinition\<lparr>inst_usage := Inline\<rparr>
      else fshDefinition)"

text \<open>\<^verbatim>\<open>this.pkg.instances.push(instanceDef)\<close>.\<close>

definition pushed :: "InstanceDefinition \<Rightarrow> exporterState \<Rightarrow> exporterState" where
  "pushed instanceDef st = st\<lparr>pkg_instances := pkg_instances st @ [instanceDef]\<rparr>"

definition exportInstanceWith :: "exporter \<Rightarrow> env \<Rightarrow> exporter" where
  "exportInstanceWith exp e fshDefinition0 st0 =
     (if list_ex (\<lambda>i. meta_name (instanceMeta i) = inst_id fshDefinition0) (pkg_instances st0)
      then (Returned None, st0)
      else
        (case fisher e (inst_instanceOf fshDefinition0) [TResource, TProfile, TExtension, TType] of
           None \<Rightarrow>
             (Thrown (InstanceOfNotDefinedError (inst_name fshDefinition0)
                        (inst_instanceOf fshDefinition0) (inst_sourceInfo fshDefinition0)), st0)
         | Some sd \<Rightarrow>
             (let isResource = (sdef_kind sd = ''resource'');
                  st1 = warned fshDefinition0 sd st0;
                  fshDefinition1 = forcedUsage fshDefinition0 sd;
                  instanceDef0 = newInstanceDefinition fshDefinition1 sd isResource;
                  k = length (pkg_instances st1);
                  st2 = pushed instanceDef0 st1;
                  (mixed, lg) = applyMixinRules e fshDefinition1;
                  fshDefinition = fshDefinition1\<lparr>inst_rules := mixed\<rparr>
              in (case setAssignedValues exp e fshDefinition instanceDef0 sd
                         (logTo (helperEntries lg) st2) of
                    (Returned (props1, sd1), st3) \<Rightarrow>
                      (case finishExport e fshDefinition k instanceDef0 props1 sd1 st3 of
                         (instanceDef, st5) \<Rightarrow> (Returned (Some instanceDef), st5))
                  | (Thrown x, st3) \<Rightarrow> (Thrown x, st3)
                  | (OutOfFuel, st3) \<Rightarrow> (OutOfFuel, st3)))))"

primrec exportInstance :: "nat \<Rightarrow> env \<Rightarrow> exporter" where
  "exportInstance 0 e = (\<lambda>fshDefinition st. (OutOfFuel, st))"
| "exportInstance (Suc fuel) e = exportInstanceWith (exportInstance fuel e) e"

subsection \<open>export\<close>

text \<open>\<^verbatim>\<open>logger.error(e.message, e.sourceInfo)\<close> for a caught error.\<close>

definition caughtEntry :: "exn \<Rightarrow> logEntry" where
  "caughtEntry x =
     (case x of
        InstanceOfNotDefinedError n t si \<Rightarrow> LogEntry Error (InstanceOfNotDefined n t) (Some si)
      | TypeError \<Rightarrow> LogEntry Error TypeErrorMessage None)"

text \<open>The loop of \<^verbatim>\<open>export\<close>; \<open>None\<close> when an export ran out of fuel.\<close>

fun exportEach :: "nat \<Rightarrow> env \<Rightarrow> Instance list \<Rightarrow> exporterState \<Rightarrow> exporterState option" where
  "exportEach fuel e [] st = Some st"
| "exportEach fuel e (instance # rest) st =
     (case exportInstance fuel e instance st of
        (Returned _, st1) \<Rightarrow> exportEach fuel e rest st1
      | (Thrown x, st1) \<Rightarrow> exportEach fuel e rest (logTo [caughtEntry x] st1)
      | (OutOfFuel, st1) \<Rightarrow> None)"

definition export :: "nat \<Rightarrow> env \<Rightarrow> exporterState \<Rightarrow> exporterState option" where
  "export fuel e st =
     (case exportEach fuel e (tank e) st of
        None \<Rightarrow> None
      | Some st1 \<Rightarrow>
          Some (if length (tank e) > 0
                then logTo [LogEntry Info (ConvertedInstances (length (tank e))) None] st1
                else st1))"

section \<open>Helpers modelled from the specification\<close>

text \<open>
  The helpers below are called by the exporter and are not in the sources.  Each is
  written from what the specification says of it, and is one possible value of the
  corresponding field of the environment.
\<close>

subsection \<open>Paths\<close>

definition isDigit :: "char \<Rightarrow> bool" where
  "isDigit c = (c \<in> set ''0123456789'')"

definition digitValue :: "char \<Rightarrow> nat" where
  "digitValue c = of_char c - of_char (CHR ''0'')"

definition parseNat :: "string \<Rightarrow> nat" where
  "parseNat s = foldl (\<lambda>n c. 10 * n + digitValue c) 0 s"

definition isNumeral :: "string \<Rightarrow> bool" where
  "isNumeral s = (s \<noteq> [] \<and> list_all isDigit s)"

text \<open>Modelled from the spec: a step of a path is an element name with optional
  \<^verbatim>\<open>[index]\<close> and \<^verbatim>\<open>[sliceName]\<close> suffixes.\<close>

definition parsePathPart :: "string \<Rightarrow> PathPart" where
  "parsePathPart step =
     (let pieces = splitOn (CHR ''['') step;
          contents = map (takeWhile (\<lambda>c. c \<noteq> CHR '']'')) (tl pieces)
      in \<lparr>pp_base = hd pieces,
          pp_index = map_option parseNat (find isNumeral contents),
          pp_slices = filter (\<lambda>c. \<not> isNumeral c) contents\<rparr>)"

definition parsePath :: "string \<Rightarrow> PathPart list" where
  "parsePath path = (if path = [] then [] else map parsePathPart (splitOnPathPeriods path))"

text \<open>The place a step addresses: the element name and the index.\<close>

definition partKey :: "PathPart \<Rightarrow> string \<times> nat option" where
  "partKey p = (pp_base p, pp_index p)"

subsection \<open>Reading and writing a JSON tree at a path\<close>

definition objectProps :: "json \<Rightarrow> (string \<times> json) list" where
  "objectProps j = (case j of JObj kvs \<Rightarrow> kvs | _ \<Rightarrow> [])"

definition arrayItems :: "json option \<Rightarrow> json list" where
  "arrayItems j = (case j of Some (JArr xs) \<Rightarrow> xs | _ \<Rightarrow> [])"

definition padTo :: "nat \<Rightarrow> json list \<Rightarrow> json list" where
  "padTo n xs = xs @ replicate (n - length xs) JNull"

fun getAtPath :: "json \<Rightarrow> PathPart list \<Rightarrow> json option" where
  "getAtPath cur [] = Some cur"
| "getAtPath cur (p # ps) =
     (case map_of (objectProps cur) (pp_base p) of
        None \<Rightarrow> None
      | Some child \<Rightarrow>
          (case pp_index p of
             None \<Rightarrow> getAtPath child ps
           | Some i \<Rightarrow>
               (if i < length (arrayItems (Some child))
                then getAtPath (arrayItems (Some child) ! i) ps else None)))"

text \<open>Modelled from the spec: \<^verbatim>\<open>setPropertyOnInstance\<close> is not in the sources.  The
  value is stored at the concrete path; the objects and arrays on the way are created
  when they are missing, an array being filled with \<^verbatim>\<open>null\<close> up to the index.  A step
  without an index addresses the property itself.\<close>

fun setAtPath :: "json \<Rightarrow> PathPart list \<Rightarrow> json \<Rightarrow> json" where
  "setAtPath cur [] v = v"
| "setAtPath cur (p # ps) v =
     (let kvs = objectProps cur;
          old = map_of kvs (pp_base p)
      in (case pp_index p of
            None \<Rightarrow>
              JObj (AList.update (pp_base p)
                      (setAtPath (case old of Some c \<Rightarrow> c | None \<Rightarrow> JObj []) ps v) kvs)
          | Some i \<Rightarrow>
              (let items = padTo (Suc i) (arrayItems old)
               in JObj (AList.update (pp_base p)
                          (JArr (items[i := setAtPath (items ! i) ps v])) kvs))))"

text \<open>Modelled from the spec: a reference to a resource that is already a contained
  resource of the instance is emitted as \<^verbatim>\<open>#id\<close>.  \<open>typeSlashId c\<close> is the \<^verbatim>\<open>Type/id\<close>
  of a contained resource.\<close>

definition typeSlashId :: "json \<Rightarrow> string option" where
  "typeSlashId c =
     (case (getProp c ''resourceType'', getProp c ''id'') of
        (Some (JStr t), Some (JStr i)) \<Rightarrow> Some (t @ ''/'' @ i)
      | _ \<Rightarrow> None)"

definition containedResources :: "(string \<times> json) list \<Rightarrow> json list" where
  "containedResources ps =
     (case map_of ps ''contained'' of
        Some (JArr xs) \<Rightarrow> xs
      | Some (JObj kvs) \<Rightarrow> [JObj kvs]
      | _ \<Rightarrow> [])"

definition relativeReference :: "(string \<times> json) list \<Rightarrow> json \<Rightarrow> json" where
  "relativeReference ps v =
     (case getProp v ''reference'' of
        Some (JStr r) \<Rightarrow>
          (case find (\<lambda>c. typeSlashId c = Some r) (containedResources ps) of
             Some c \<Rightarrow>
               (case getProp c ''id'' of
                  Some (JStr i) \<Rightarrow> JObj (AList.update ''reference'' (JStr (CHR ''#'' # i)) (objectProps v))
                | _ \<Rightarrow> v)
           | None \<Rightarrow> v)
      | _ \<Rightarrow> v)"

definition setPropertyOnInstance_spec ::
  "(string \<times> json) list \<Rightarrow> PathPart list \<Rightarrow> json \<Rightarrow> (string \<times> json) list" where
  "setPropertyOnInstance_spec ps parts v =
     (if parts = [] then ps
      else objectProps (setAtPath (JObj ps) parts (relativeReference ps v)))"

subsection \<open>Validation of a rule\<close>

definition lastSegment :: "string \<Rightarrow> string" where
  "lastSegment path = last (splitOn (CHR ''.'') path)"

text \<open>The element a path leads to: each step names a direct child of the element
  reached so far.\<close>

fun resolveElement :: "ElementDefinition \<Rightarrow> PathPart list \<Rightarrow> ElementDefinition option" where
  "resolveElement el [] = Some el"
| "resolveElement el (p # ps) =
     (case find (\<lambda>c. lastSegment (el_path c) = pp_base p) (el_children el) of
        None \<Rightarrow> None
      | Some c \<Rightarrow> resolveElement c ps)"

definition valueToJson :: "ruleValue \<Rightarrow> json" where
  "valueToJson v =
     (case v of
        VString s \<Rightarrow> JStr s
      | VBool b \<Rightarrow> JBool b
      | VNumber n \<Rightarrow> JNum n
      | VCode sys c \<Rightarrow>
          JObj ((case sys of Some s \<Rightarrow> [(''system'', JStr s)] | None \<Rightarrow> []) @ [(''code'', JStr c)])
      | VReference r \<Rightarrow> JObj [(''reference'', JStr r)]
      | VInstance d \<Rightarrow> JObj (props d))"

text \<open>Modelled from the spec: \<^verbatim>\<open>validateValueAtPath\<close> is not in the sources.  The path
  is resolved step by step in the element tree, and a step that matches no element is
  the error \<^verbatim>\<open>CannotResolvePath\<close>; below an inline resource the path is taken as it
  is.  The check of the value against the types of the element is left out.  The result
  is the list of path parts and the value as JSON; the structure definition is not
  changed.\<close>

definition validateValueAtPath_spec ::
  "StructureDefinition \<Rightarrow> string \<Rightarrow> ruleValue \<Rightarrow> json option list
     \<Rightarrow> (string + PathPart list \<times> json) \<times> StructureDefinition" where
  "validateValueAtPath_spec sd path v irts =
     (if list_ex (\<lambda>t. t \<noteq> None) irts \<or> resolveElement (sdef_root sd) (parsePath path) \<noteq> None
      then (Inr (parsePath path, valueToJson v), sd)
      else (Inl (''CannotResolvePath '' @ path), sd))"

subsection \<open>Implied values\<close>

text \<open>The implied values at one element that is reached: every direct child with a
  pattern or fixed value is set below the concrete path of the element, unless a value
  is there already.\<close>

definition impliedAt :: "json \<Rightarrow> PathPart list \<Rightarrow> ElementDefinition \<Rightarrow> json" where
  "impliedAt cur q el =
     foldl (\<lambda>j c. case el_assigned c of
                     None \<Rightarrow> j
                   | Some v \<Rightarrow>
                       (let at = q @ [\<lparr>pp_base = lastSegment (el_path c), pp_index = None, pp_slices = []\<rparr>]
                        in if getAtPath j at = None then setAtPath j at v else j))
       cur (el_children el)"

text \<open>The prefixes of a path, the empty one and the path itself included, shortest
  first.\<close>

definition pathPrefixes :: "PathPart list \<Rightarrow> PathPart list list" where
  "pathPrefixes parts = map (\<lambda>n. take n parts) [0..<Suc (length parts)]"

text \<open>Modelled from the spec: \<^verbatim>\<open>setImpliedPropertiesOnInstance\<close> is not in the sources.
  For every rule path and every element on it that the structure definition knows, the
  implied values of the children of that element are set.\<close>

definition setImpliedPropertiesOnInstance_spec ::
  "(string \<times> json) list \<Rightarrow> StructureDefinition \<Rightarrow> string list \<Rightarrow> (string \<times> json) list" where
  "setImpliedPropertiesOnInstance_spec ps sd paths =
     objectProps
       (foldl (\<lambda>j q. case resolveElement (sdef_root sd) q of
                       None \<Rightarrow> j
                     | Some el \<Rightarrow> impliedAt j q el)
          (JObj ps) (concat (map (\<lambda>path. pathPrefixes (parsePath path)) paths)))"

subsection \<open>Ids\<close>

text \<open>\<^verbatim>\<open>[A-Za-z0-9\-\.]{1,64}\<close>.\<close>

definition isIdChar :: "char \<Rightarrow> bool" where
  "isIdChar c =
     (let n = (of_char c :: nat)
      in (65 \<le> n \<and> n \<le> 90) \<or> (97 \<le> n \<and> n \<le> 122) \<or> (48 \<le> n \<and> n \<le> 57)
         \<or> c = CHR ''-'' \<or> c = CHR ''.'')"

definition isValidId :: "string \<Rightarrow> bool" where
  "isValidId s = (1 \<le> length s \<and> length s \<le> 64 \<and> list_all isIdChar s)"

text \<open>\<^verbatim>\<open>_\<close> replaced by \<^verbatim>\<open>-\<close>, and the first 64 characters of the result.\<close>

definition sanitizeId :: "string \<Rightarrow> string" where
  "sanitizeId s = take 64 (map (\<lambda>c. if c = CHR ''_'' then CHR ''-'' else c) s)"

text \<open>Modelled from the spec: \<^verbatim>\<open>InstanceDefinition.validateId\<close> is not in the sources.
  An id that is not valid but becomes valid by sanitizing (a name that is valid but for
  its underscores and its length) is replaced by the sanitized id with a warning; any
  other id that is not valid is reported as an error and kept.\<close>

definition validateId_spec ::
  "(string \<times> json) list \<Rightarrow> SourceInfo \<Rightarrow> (string \<times> json) list \<times> helperLog" where
  "validateId_spec ps si =
     (case map_of ps ''id'' of
        Some (JStr i) \<Rightarrow>
          (if isValidId i then (ps, [])
           else if isValidId (sanitizeId i)
           then (AList.update ''id'' (JStr (sanitizeId i)) ps,
                 [(Warn, SanitizedId i (sanitizeId i), Some si)])
           else (ps, [(Error, InvalidFHIRId i, Some si)]))
      | _ \<Rightarrow> (ps, []))"

subsection \<open>References\<close>

text \<open>The id an instance of the tank is exported with: the value of its rule for the
  path \<^verbatim>\<open>id\<close> if it has one, its own id otherwise.\<close>

definition exportedId :: "Instance \<Rightarrow> string" where
  "exportedId i =
     (case find (\<lambda>r. rule_path r = ''id'') (inst_rules i) of
        Some r \<Rightarrow> (case rule_value r of VString s \<Rightarrow> s | _ \<Rightarrow> inst_id i)
      | None \<Rightarrow> inst_id i)"

text \<open>Modelled from the spec: \<^verbatim>\<open>replaceReferences\<close> is not in the sources.  A
  \<^verbatim>\<open>Reference(Name)\<close> whose name resolves to an instance of the tank becomes
  \<^verbatim>\<open>Type/id\<close>, the type being that of the structure definition the referent is an
  instance of; any other value is left as it is.\<close>

definition replaceReferences_spec ::
  "Instance list \<Rightarrow> (string \<Rightarrow> FhirType list \<Rightarrow> StructureDefinition option)
     \<Rightarrow> AssignmentRule \<Rightarrow> AssignmentRule" where
  "replaceReferences_spec tnk fsr r =
     (case rule_value r of
        VReference n \<Rightarrow>
          (case tank_fish tnk n of
             None \<Rightarrow> r
           | Some referent \<Rightarrow>
               (case fsr (inst_instanceOf referent) [TResource, TProfile, TExtension, TType] of
                  None \<Rightarrow> r
                | Some sd \<Rightarrow>
                    r\<lparr>rule_value := VReference (sdef_type sd @ ''/'' @ exportedId referent)\<rparr>))
      | _ \<Rightarrow> r)"

subsection \<open>An environment of these helpers\<close>

text \<open>The environment of a tank without rule sets (mixins and insert rules expand to
  nothing), with the helpers above; \<^verbatim>\<open>cleanResource\<close> finds nothing to clean.\<close>

definition specEnv ::
  "Instance list \<Rightarrow> (string \<Rightarrow> FhirType list \<Rightarrow> StructureDefinition option) \<Rightarrow> env" where
  "specEnv tnk fsr =
     \<lparr>tank = tnk, fisher = fsr,
      applyMixinRules = (\<lambda>i. (inst_rules i, [])),
      applyInsertRules = (\<lambda>i. (inst_rules i, [])),
      replaceReferences = replaceReferences_spec tnk fsr,
      validateValueAtPath = validateValueAtPath_spec,
      setImpliedPropertiesOnInstance = setImpliedPropertiesOnInstance_spec,
      setPropertyOnInstance = setPropertyOnInstance_spec,
      validateId = validateId_spec,
      cleanResource = (\<lambda>ps. ps)\<rparr>"

section \<open>The ig.ini file\<close>

text \<open>
  \<^verbatim>\<open>IGExporter.addIgIni\<close> is not in the sources; only its tests are.  The configuration
  is kept by the two values \<^verbatim>\<open>addIgIni\<close> needs, the file \<^verbatim>\<open>ig-data/ig.ini\<close> by its
  properties in order (\<open>None\<close> when there is no such file), and the file written to the
  output directory by its banner and its properties.
\<close>

record Configuration =
  cfg_id :: string
  cfg_template :: "string option"

datatype banner = GeneratedBanner | CopiedBanner | MergedBanner

record IgIni =
  ini_banner :: banner
  ini_properties :: "(string \<times> string) list"

record igState =
  outputIgIni :: "IgIni option"
  igLogger :: "logEntry list"

definition igLog :: "level \<Rightarrow> message \<Rightarrow> igState \<Rightarrow> igState" where
  "igLog l m st = st\<lparr>igLogger := igLogger st @ [LogEntry l m None]\<rparr>"

definition writeIgIni :: "IgIni \<Rightarrow> igState \<Rightarrow> igState" where
  "writeIgIni ini st = st\<lparr>outputIgIni := Some ini\<rparr>"

definition deprecatedProperties :: "string list" where
  "deprecatedProperties =
     [''copyrightyear'', ''license'', ''version'', ''ballotstatus'', ''fhirspec'', ''excludexml'',
      ''excludejson'', ''excludettl'', ''excludeMaps'']"

definition defaultIg :: "Configuration \<Rightarrow> string" where
  "defaultIg config = ''input/ImplementationGuide-'' @ cfg_id config @ ''.json''"

text \<open>The properties \<^verbatim>\<open>ig\<close> and \<^verbatim>\<open>template\<close> that a file lacks, with their default
  values; \<open>defaultTemplate\<close> is the template taken when neither the configuration nor
  the file names one.\<close>

definition missingProperties ::
  "Configuration \<Rightarrow> string \<Rightarrow> (string \<times> string) list \<Rightarrow> (string \<times> string) list" where
  "missingProperties config defaultTemplate properties =
     filter (\<lambda>kv. fst kv \<notin> set (map fst properties))
       [(''ig'', defaultIg config), (''template'', defaultTemplate)]"

text \<open>Modelled from the spec: \<^verbatim>\<open>addIgIni\<close> is not in the sources.  With a template in
  the configuration the file is generated from the configuration, with a warning when
  \<^verbatim>\<open>ig-data/ig.ini\<close> exists too.  Without a template, an existing \<^verbatim>\<open>ig-data/ig.ini\<close>
  is copied; each of \<^verbatim>\<open>ig\<close> and \<^verbatim>\<open>template\<close> it lacks is merged in with a warning, and
  its deprecated properties are reported and kept.  Nothing else is done.\<close>

definition addIgIni ::
  "Configuration \<Rightarrow> string \<Rightarrow> (string \<times> string) list option \<Rightarrow> igState \<Rightarrow> igState" where
  "addIgIni config defaultTemplate igData st =
     (case cfg_template config of
        Some template \<Rightarrow>
          igLog Info GeneratedIgIni
            (writeIgIni \<lparr>ini_banner = GeneratedBanner,
                         ini_properties = [(''ig'', defaultIg config), (''template'', template)]\<rparr>
               (if igData \<noteq> None then igLog Warn TemplateAndIgIni st else st))
      | None \<Rightarrow>
          (case igData of
             None \<Rightarrow> st
           | Some properties \<Rightarrow>
               (let missing = missingProperties config defaultTemplate properties;
                    deprecated = filter (\<lambda>k. k \<in> set deprecatedProperties) (map fst properties);
                    st1 = foldl (\<lambda>s kv. igLog Warn (IgIniMissingProperty (fst kv)) s) st missing;
                    st2 = (if deprecated \<noteq> []
                           then igLog Warn (IgIniDeprecatedProperties deprecated) st1 else st1)
                in igLog Info (if missing = [] then CopiedIgIni else MergedIgIni)
                     (writeIgIni \<lparr>ini_banner = (if missing = [] then CopiedBanner else MergedBanner),
                                  ini_properties = properties @ missing\<rparr> st2))))"

section \<open>Notions used in the statements\<close>

text \<open>The names under which the instances of the package were exported, in order.\<close>

definition instanceNames :: "exporterState \<Rightarrow> string list" where
  "instanceNames st = map (\<lambda>i. meta_name (instanceMeta i)) (pkg_instances st)"

text \<open>One state grows into another: the package and the log only get longer.\<close>

definition grows :: "exporterState \<Rightarrow> exporterState \<Rightarrow> bool" where
  "grows st st' = (prefix (pkg_instances st) (pkg_instances st') \<and> prefix (logger st) (logger st'))"

text \<open>The entries logged between two states.\<close>

definition logged :: "exporterState \<Rightarrow> exporterState \<Rightarrow> logEntry list" where
  "logged st st' = drop (length (logger st)) (logger st')"

definition isDuplicateIdError :: "logEntry \<Rightarrow> bool" where
  "isDuplicateIdError x = (case x of LogEntry l (DuplicateInstanceId t i) s \<Rightarrow> True | _ \<Rightarrow> False)"

definition isNotAResourceWarning :: "logEntry \<Rightarrow> bool" where
  "isNotAResourceWarning x = (case x of LogEntry l (NotAResource n) s \<Rightarrow> True | _ \<Rightarrow> False)"

text \<open>The entries that neither report a duplicate id nor warn of an instance that
  is not a resource.\<close>

definition plain :: "logEntry \<Rightarrow> bool" where
  "plain x = (\<not> isDuplicateIdError x \<and> \<not> isNotAResourceWarning x)"

text \<open>A relation between states holds across every call of an exporter; a relation is
  stable under logging when it is reflexive and transitive and relates a state to the
  state with more plain entries logged.\<close>

definition holdsAcross :: "(exporterState \<Rightarrow> exporterState \<Rightarrow> bool) \<Rightarrow> exporter \<Rightarrow> bool" where
  "holdsAcross R exp = (\<forall>f s r s'. exp f s = (r, s') \<longrightarrow> R s s')"

definition logStable :: "(exporterState \<Rightarrow> exporterState \<Rightarrow> bool) \<Rightarrow> bool" where
  "logStable R = (reflp R \<and> transp R \<and> (\<forall>l s. list_all plain l \<longrightarrow> R s (logTo l s)))"

text \<open>A state grows into another without a change of the package: then the package is
  the same, and the entries logged in between are plain.\<close>

definition quiet :: "exporterState \<Rightarrow> exporterState \<Rightarrow> bool" where
  "quiet st st' =
     (grows st st' \<and>
      (length (pkg_instances st') = length (pkg_instances st) \<longrightarrow>
         pkg_instances st' = pkg_instances st \<and> list_all plain (logged st st')))"

text \<open>The package keeps what it has: the state grows, and the names of its instances
  stay distinct if they were.\<close>

definition keeps :: "exporterState \<Rightarrow> exporterState \<Rightarrow> bool" where
  "keeps st st' = (grows st st' \<and> (distinct (instanceNames st) \<longrightarrow> distinct (instanceNames st')))"

text \<open>The steps of \<^verbatim>\<open>exportInstance\<close> between the lookup of \<^verbatim>\<open>instanceOf\<close> and
  \<^verbatim>\<open>setAssignedValues\<close>: the definition that is pushed, the instance with its mixins
  applied, and the state in which the values are assigned.\<close>

definition initialDefinition :: "Instance \<Rightarrow> StructureDefinition \<Rightarrow> InstanceDefinition" where
  "initialDefinition f sd = newInstanceDefinition (forcedUsage f sd) sd (sdef_kind sd = ''resource'')"

definition expanded :: "env \<Rightarrow> Instance \<Rightarrow> StructureDefinition \<Rightarrow> Instance" where
  "expanded e f sd = (forcedUsage f sd)\<lparr>inst_rules := fst (applyMixinRules e (forcedUsage f sd))\<rparr>"

definition started :: "env \<Rightarrow> Instance \<Rightarrow> StructureDefinition \<Rightarrow> exporterState \<Rightarrow> exporterState" where
  "started e f sd st =
     logTo (helperEntries (snd (applyMixinRules e (forcedUsage f sd))))
       (pushed (initialDefinition f sd) (warned f sd st))"

text \<open>An instance is already exported: the package holds a definition under its
  id.\<close>

definition alreadyExported :: "Instance \<Rightarrow> exporterState \<Rightarrow> bool" where
  "alreadyExported f st = list_ex (\<lambda>i. meta_name (instanceMeta i) = inst_id f) (pkg_instances st)"

definition instanceOfKinds :: "FhirType list" where
  "instanceOfKinds = [TResource, TProfile, TExtension, TType]"


text \<open>The rules of an instance as \<^verbatim>\<open>setAssignedValues\<close> has them before it converts
  the names of instances: insert rules expanded, \<^verbatim>\<open>[0]\<close> removed from the paths,
  references replaced.\<close>

definition preparedRules :: "env \<Rightarrow> Instance \<Rightarrow> AssignmentRule list" where
  "preparedRules e f =
     map (replaceReferences e)
       (map (\<lambda>r. r\<lparr>rule_path := removeZeroIndices (rule_path r)\<rparr>) (fst (applyInsertRules e f)))"

text \<open>The rules that \<^verbatim>\<open>validateValueAtPath\<close> accepts, in source order, each with its
  path, its path parts and its value; the structure definition as the validation of all
  rules leaves it, and the errors of the rules that are not valid.\<close>

fun validatedRules ::
  "env \<Rightarrow> (string \<times> json option) list \<Rightarrow> AssignmentRule list \<Rightarrow> StructureDefinition \<Rightarrow> ruleMap" where
  "validatedRules e irps [] sd = []"
| "validatedRules e irps (rule # rs) sd =
     (case validateValueAtPath e sd (rule_path rule) (rule_value rule) (inlineResourceTypes irps rule) of
        (Inr validatedRule, sd') \<Rightarrow> (rule_path rule, validatedRule) # validatedRules e irps rs sd'
      | (Inl msg, sd') \<Rightarrow> validatedRules e irps rs sd')"

definition validatedDefinition ::
  "env \<Rightarrow> (string \<times> json option) list \<Rightarrow> AssignmentRule list \<Rightarrow> StructureDefinition
     \<Rightarrow> StructureDefinition" where
  "validatedDefinition e irps rules sd = fst (snd (recordRules e irps rules ([], sd, [])))"

definition ruleErrors ::
  "env \<Rightarrow> (string \<times> json option) list \<Rightarrow> AssignmentRule list \<Rightarrow> StructureDefinition
     \<Rightarrow> logEntry list" where
  "ruleErrors e irps rules sd = snd (snd (recordRules e irps rules ([], sd, [])))"

text \<open>Each distinct path once, at the place of its first rule, with the value of its
  last rule.\<close>

definition lastValue :: "'k \<Rightarrow> 'v \<Rightarrow> ('k \<times> 'v) list \<Rightarrow> 'v" where
  "lastValue k v kvs = (case map_of (rev kvs) k of Some v' \<Rightarrow> v' | None \<Rightarrow> v)"

fun oncePerPath :: "('k \<times> 'v) list \<Rightarrow> ('k \<times> 'v) list" where
  "oncePerPath [] = []"
| "oncePerPath ((k, v) # kvs) =
     (k, lastValue k v kvs) # oncePerPath (filter (\<lambda>kv. fst kv \<noteq> k) kvs)"

text \<open>The implied values as \<^verbatim>\<open>setAssignedValues\<close> asks for them: on the properties
  of the definition as it was pushed, for the empty path and the paths of all rules.\<close>

definition impliedProperties ::
  "env \<Rightarrow> (string \<times> json option) list \<Rightarrow> AssignmentRule list \<Rightarrow> InstanceDefinition
     \<Rightarrow> StructureDefinition \<Rightarrow> (string \<times> json) list" where
  "impliedProperties e irps rules d sd =
     setImpliedPropertiesOnInstance e (props d) (validatedDefinition e irps rules sd)
       ([] # map rule_path rules)"

text \<open>The assignment as the specification words it: the implied values first, then
  every valid rule in source order, a later rule overwriting an earlier one.\<close>

definition assignedInSourceOrder ::
  "env \<Rightarrow> (string \<times> json option) list \<Rightarrow> AssignmentRule list \<Rightarrow> InstanceDefinition
     \<Rightarrow> StructureDefinition \<Rightarrow> (string \<times> json) list" where
  "assignedInSourceOrder e irps rules d sd =
     foldl (\<lambda>ps rule. setPropertyOnInstance e ps (fst (snd rule)) (snd (snd rule)))
       (impliedProperties e irps rules d sd) (validatedRules e irps rules sd)"

text \<open>What one rule emits at its path: the rule after \<^verbatim>\<open>replaceReferences\<close>, validated
  and set on the properties \<open>ps\<close>, read back at the path of the rule.  The helpers are
  the ones modelled from the specification.\<close>

definition emittedValue ::
  "Instance list \<Rightarrow> (string \<Rightarrow> FhirType list \<Rightarrow> StructureDefinition option)
     \<Rightarrow> StructureDefinition \<Rightarrow> (string \<times> json) list \<Rightarrow> AssignmentRule \<Rightarrow> json option" where
  "emittedValue tnk fsr sd ps r =
     (let r' = replaceReferences_spec tnk fsr r
      in (case validateValueAtPath_spec sd (rule_path r') (rule_value r') [] of
            (Inr (parts, v), sd') \<Rightarrow> getAtPath (JObj (setPropertyOnInstance_spec ps parts v)) parts
          | (Inl msg, sd') \<Rightarrow> None))"

definition referenceTo :: "string \<Rightarrow> json" where
  "referenceTo s = JObj [(''reference'', JStr s)]"

text \<open>No contained resource among the properties has this \<^verbatim>\<open>Type/id\<close>.\<close>

definition notContained :: "(string \<times> json) list \<Rightarrow> string \<Rightarrow> bool" where
  "notContained ps s = (find (\<lambda>c. typeSlashId c = Some s) (containedResources ps) = None)"

text \<open>The number of instances of the tank that are not yet in the package, counted by
  id: every export on demand takes one of them.\<close>

definition pending :: "env \<Rightarrow> exporterState \<Rightarrow> nat" where
  "pending e st = card (inst_id ` set (tank e) - set (instanceNames st))"

text \<open>An exporter agrees with another: whatever the first returns or throws, the
  second does too.\<close>

definition agreesWith :: "exporter \<Rightarrow> exporter \<Rightarrow> bool" where
  "agreesWith exp exp' = (\<forall>f s r s'. exp f s = (r, s') \<longrightarrow> r \<noteq> OutOfFuel \<longrightarrow> exp' f s = (r, s'))"
section \<open>Examples\<close>

text \<open>
  The structure definitions, instances and environments of the examples below follow the
  tests of the exporter.  Of a structure definition only the elements the examples use
  are listed.
\<close>

definition element :: "string \<Rightarrow> ElementDefinition list \<Rightarrow> ElementDefinition" where
  "element path children = ElementDefinition path path 0 None None children"

definition patientSD :: StructureDefinition where
  "patientSD =
     \<lparr>sdef_kind = ''resource'', sdef_type = ''Patient'', sdef_derivation = Some ''specialization'',
      sdef_url = ''http://hl7.org/fhir/StructureDefinition/Patient'',
      sdef_root = element ''Patient''
        [element ''Patient.id'' [], element ''Patient.active'' [],
         element ''Patient.contained'' [],
         element ''Patient.managingOrganization'' [],
         element ''Patient.maritalStatus'' [element ''Patient.maritalStatus.text'' []],
         element ''Patient.communication''
           [element ''Patient.communication.language'' [],
            ElementDefinition ''Patient.communication.preferred'' ''Patient.communication.preferred''
              0 None (Some (JBool True)) []]]\<rparr>"

definition organizationSD :: StructureDefinition where
  "organizationSD =
     \<lparr>sdef_kind = ''resource'', sdef_type = ''Organization'',
      sdef_derivation = Some ''specialization'',
      sdef_url = ''http://hl7.org/fhir/StructureDefinition/Organization'',
      sdef_root = element ''Organization'' [element ''Organization.id'' []]\<rparr>"

definition bundleSD :: StructureDefinition where
  "bundleSD =
     \<lparr>sdef_kind = ''resource'', sdef_type = ''Bundle'', sdef_derivation = Some ''specialization'',
      sdef_url = ''http://hl7.org/fhir/StructureDefinition/Bundle'',
      sdef_root = element ''Bundle''
        [element ''Bundle.id'' [],
         element ''Bundle.entry'' [element ''Bundle.entry.resource'' []]]\<rparr>"

definition quantitySD :: StructureDefinition where
  "quantitySD =
     \<lparr>sdef_kind = ''complex-type'', sdef_type = ''Quantity'',
      sdef_derivation = Some ''specialization'',
      sdef_url = ''http://hl7.org/fhir/StructureDefinition/Quantity'',
      sdef_root = element ''Quantity'' [element ''Quantity.id'' [], element ''Quantity.unit'' []]\<rparr>"

text \<open>The fisher of the examples knows these four definitions, whatever kinds it is asked
  for.\<close>

definition testFisher :: "string \<Rightarrow> FhirType list \<Rightarrow> StructureDefinition option" where
  "testFisher item kinds =
     (if item = ''Patient'' then Some patientSD
      else if item = ''Organization'' then Some organizationSD
      else if item = ''Bundle'' then Some bundleSD
      else if item = ''Quantity'' then Some quantitySD
      else None)"

definition lines :: "nat \<Rightarrow> nat \<Rightarrow> SourceInfo" where
  "lines a b = \<lparr>srcFile = Some ''Example.fsh'', srcLocation = Some (a, 1, b, 20)\<rparr>"

definition noSourceInfo :: SourceInfo where
  "noSourceInfo = \<lparr>srcFile = None, srcLocation = None\<rparr>"

text \<open>\<^verbatim>\<open>new AssignmentRule(path)\<close> with a value, and the same for a rule that names an
  instance.\<close>

definition assign :: "string \<Rightarrow> ruleValue \<Rightarrow> AssignmentRule" where
  "assign path v =
     \<lparr>rule_path = path, rule_value = v, rule_exactly = False, rule_isInstance = False,
      rule_sourceInfo = noSourceInfo\<rparr>"

definition assignInstance :: "string \<Rightarrow> string \<Rightarrow> AssignmentRule" where
  "assignInstance path n =
     \<lparr>rule_path = path, rule_value = VString n, rule_exactly = False, rule_isInstance = True,
      rule_sourceInfo = noSourceInfo\<rparr>"

text \<open>\<^verbatim>\<open>new Instance(name)\<close>: the id is the name and the usage is \<^verbatim>\<open>Example\<close>.\<close>

definition newInstance :: "string \<Rightarrow> string \<Rightarrow> AssignmentRule list \<Rightarrow> SourceInfo \<Rightarrow> Instance" where
  "newInstance n t rs si =
     \<lparr>inst_name = n, inst_id = n, inst_title = None, inst_description = None,
      inst_instanceOf = t, inst_usage = Example, inst_mixins = [], inst_rules = rs,
      inst_sourceInfo = si\<rparr>"

definition emptyState :: exporterState where
  "emptyState = \<lparr>pkg_instances = [], logger = []\<rparr>"

text \<open>\<^verbatim>\<open>new InstanceDefinition()\<close> for a resource that is an example.\<close>

definition exampleDefinition :: "string \<Rightarrow> (string \<times> json) list \<Rightarrow> InstanceDefinition" where
  "exampleDefinition n ps =
     \<lparr>instanceMeta = \<lparr>meta_name = n, meta_title = None, meta_description = None,
                       meta_usage = Some Example, meta_sdType = None\<rparr>,
      props = ps\<rparr>"

subsection \<open>Two instances with the same id\<close>

definition firstExample :: Instance where
  "firstExample =
     newInstance ''FirstExample'' ''Patient'' [assign ''id'' (VString ''repeated-id'')] (lines 3 11)"

definition secondExample :: Instance where
  "secondExample =
     newInstance ''SecondExample'' ''Patient'' [assign ''id'' (VString ''repeated-id'')] (lines 13 20)"

text \<open>An instance that contains another one with its own id.\<close>

definition containingPatient :: Instance where
  "containingPatient =
     newInstance ''same-id'' ''Patient'' [assignInstance ''contained'' ''Contained''] (lines 3 11)"

definition containedPatient :: Instance where
  "containedPatient =
     newInstance ''Contained'' ''Patient'' [assign ''id'' (VString ''same-id'')] (lines 13 20)"

subsection \<open>An instance of something that is not defined\<close>

definition undefinedContained :: Instance where
  "undefinedContained = newInstance ''Contained'' ''Bogus'' [] (lines 13 20)"

text \<open>Two documents of a tank that both define an instance \<^verbatim>\<open>Foo\<close>.\<close>

definition fooPatient :: Instance where
  "fooPatient = newInstance ''Foo'' ''Patient'' [] (lines 1 2)"

definition fooBogus :: Instance where
  "fooBogus = newInstance ''Foo'' ''Bogus'' [] (lines 1 2)"

subsection \<open>An instance of a type\<close>

definition firstQuantity :: Instance where
  "firstQuantity = newInstance ''FirstQuantity'' ''Quantity'' [] (lines 1 2)"

subsection \<open>A bundle with a patient\<close>

definition myBundle :: Instance where
  "myBundle =
     newInstance ''MyBundle'' ''Bundle'' [assignInstance ''entry[0].resource'' ''MyBundledPatient'']
       (lines 1 3)"

definition myBundledPatient :: Instance where
  "myBundledPatient =
     newInstance ''MyBundledPatient'' ''Patient'' [assign ''active'' (VBool True)] (lines 5 7)"

definition bundleEnv :: env where
  "bundleEnv = specEnv [myBundle, myBundledPatient] testFisher"

text \<open>The package after the export of the bundle.\<close>

definition bundledPatientDefinition :: InstanceDefinition where
  "bundledPatientDefinition =
     exampleDefinition ''MyBundledPatient''
       [(''resourceType'', JStr ''Patient''), (''id'', JStr ''MyBundledPatient''),
        (''active'', JBool True)]"

definition bundleDefinition :: InstanceDefinition where
  "bundleDefinition =
     exampleDefinition ''MyBundle''
       [(''resourceType'', JStr ''Bundle''), (''id'', JStr ''MyBundle''),
        (''entry'', JObj [(''resource'', JObj (props bundledPatientDefinition))])]"

definition bundleState :: exporterState where
  "bundleState = \<lparr>pkg_instances = [bundleDefinition, bundledPatientDefinition], logger = []\<rparr>"

subsection \<open>Environments of the other examples\<close>

definition quantityEnv :: env where
  "quantityEnv = specEnv [firstQuantity] testFisher"

definition fooEnv :: env where
  "fooEnv = specEnv [fooPatient, fooBogus] testFisher"

definition fooState :: exporterState where
  "fooState =
     \<lparr>pkg_instances =
        [exampleDefinition ''Foo'' [(''resourceType'', JStr ''Patient''), (''id'', JStr ''Foo'')]],
      logger = []\<rparr>"

definition quantityDefinition :: InstanceDefinition where
  "quantityDefinition =
     \<lparr>instanceMeta = \<lparr>meta_name = ''FirstQuantity'', meta_title = None, meta_description = None,
                       meta_usage = Some Inline, meta_sdType = Some ''Quantity''\<rparr>,
      props = []\<rparr>"

definition repeatedEnv :: env where
  "repeatedEnv = specEnv [firstExample, secondExample] testFisher"

definition repeatedDefinition :: "string \<Rightarrow> InstanceDefinition" where
  "repeatedDefinition n =
     exampleDefinition n [(''resourceType'', JStr ''Patient''), (''id'', JStr ''repeated-id'')]"

definition firstState :: exporterState where
  "firstState = \<lparr>pkg_instances = [repeatedDefinition ''FirstExample''], logger = []\<rparr>"

definition secondState :: exporterState where
  "secondState =
     \<lparr>pkg_instances = [repeatedDefinition ''FirstExample'', repeatedDefinition ''SecondExample''],
      logger = [LogEntry Error
                  (DuplicateInstanceId (Some (JStr ''Patient'')) (Some (JStr ''repeated-id'')))
                  (Some (lines 13 20))]\<rparr>"

definition containingEnv :: env where
  "containingEnv = specEnv [containingPatient, containedPatient] testFisher"

subsection \<open>An instance that contains an instance of something that is not defined\<close>

definition outerPatient :: Instance where
  "outerPatient =
     newInstance ''Outer'' ''Patient''
       [assign ''active'' (VBool True), assignInstance ''contained'' ''Contained''] (lines 3 11)"

definition failingEnv :: env where
  "failingEnv = specEnv [outerPatient, undefinedContained] testFisher"

definition notDefinedError :: logEntry where
  "notDefinedError =
     LogEntry Error (InstanceOfNotDefined ''Contained'' ''Bogus'') (Some (lines 13 20))"

subsection \<open>Implied values and rules for the same path\<close>

text \<open>A profile of \<^verbatim>\<open>Patient\<close> that fixes the display of the managing organization.\<close>

definition managedSD :: StructureDefinition where
  "managedSD =
     \<lparr>sdef_kind = ''resource'', sdef_type = ''Patient'', sdef_derivation = Some ''constraint'',
      sdef_url = ''http://example.org/StructureDefinition/managed-patient'',
      sdef_root = element ''Patient''
        [element ''Patient.id'' [], element ''Patient.active'' [],
         element ''Patient.managingOrganization''
           [element ''Patient.managingOrganization.reference'' [],
            ElementDefinition ''Patient.managingOrganization.display''
              ''Patient.managingOrganization.display'' 0 None (Some (JStr ''Main office'')) []]]\<rparr>"

definition managedPatient :: Instance where
  "managedPatient =
     newInstance ''Managed'' ''ManagedPatient''
       [assign ''active'' (VBool True),
        assign ''managingOrganization.reference'' (VString ''Organization/1''),
        assign ''birthDate'' (VString ''2000-01-01'')] (lines 1 5)"

definition unmanagedPatient :: Instance where
  "unmanagedPatient =
     newInstance ''Unmanaged'' ''ManagedPatient'' [assign ''active'' (VBool True)] (lines 7 9)"

definition managedEnv :: env where
  "managedEnv = specEnv [managedPatient, unmanagedPatient] testFisher"

definition birthDateError :: logEntry where
  "birthDateError = LogEntry Error (RuleError ''CannotResolvePath birthDate'') (Some noSourceInfo)"

text \<open>A patient whose marital status is assigned after a text for it, and the text
  again after that.\<close>

definition marriedPatient :: Instance where
  "marriedPatient =
     newInstance ''Married'' ''Patient''
       [assign ''maritalStatus.text'' (VString ''single''),
        assign ''maritalStatus'' (VCode None ''M''),
        assign ''maritalStatus.text'' (VString ''married'')] (lines 1 5)"

definition marriedEnv :: env where
  "marriedEnv = specEnv [marriedPatient] testFisher"

subsection \<open>Ids that are not valid\<close>

definition underscorePatient :: Instance where
  "underscorePatient =
     newInstance ''Foo'' ''Patient'' [assign ''id'' (VString ''Some_Patient'')] (lines 2 5)"

definition spacePatient :: Instance where
  "spacePatient =
     newInstance ''MyExample'' ''Patient'' [assign ''id'' (VString ''Some Patient'')] (lines 3 6)"

definition idEnv :: env where
  "idEnv = specEnv [underscorePatient, spacePatient] testFisher"

definition underscoreState :: exporterState where
  "underscoreState =
     \<lparr>pkg_instances =
        [exampleDefinition ''Foo''
           [(''resourceType'', JStr ''Patient''), (''id'', JStr ''Some-Patient'')]],
      logger =
        [LogEntry Warn (HelperMessage (SanitizedId ''Some_Patient'' ''Some-Patient''))
           (Some (lines 2 5))]\<rparr>"

definition spaceState :: exporterState where
  "spaceState =
     \<lparr>pkg_instances =
        [exampleDefinition ''MyExample''
           [(''resourceType'', JStr ''Patient''), (''id'', JStr ''Some Patient'')]],
      logger =
        [LogEntry Error (HelperMessage (InvalidFHIRId ''Some Patient'')) (Some (lines 3 6))]\<rparr>"

subsection \<open>References\<close>

definition testOrganization :: Instance where
  "testOrganization =
     newInstance ''TestOrganization'' ''Organization'' [assign ''id'' (VString ''org-id'')] (lines 1 3)"

definition managingRule :: AssignmentRule where
  "managingRule = assign ''managingOrganization'' (VReference ''TestOrganization'')"

definition referringPatient :: Instance where
  "referringPatient = newInstance ''Referring'' ''Patient'' [managingRule] (lines 5 7)"

definition containingReferrer :: Instance where
  "containingReferrer =
     newInstance ''Containing'' ''Patient''
       [assignInstance ''contained'' ''TestOrganization'', managingRule] (lines 9 12)"

definition externalRule :: AssignmentRule where
  "externalRule = assign ''managingOrganization'' (VReference ''http://hl7.org/fhir/us/minimal'')"

definition externalReferrer :: Instance where
  "externalReferrer = newInstance ''External'' ''Patient'' [externalRule] (lines 14 16)"

definition referenceTank :: "Instance list" where
  "referenceTank = [testOrganization, referringPatient, containingReferrer, externalReferrer]"

definition referenceEnv :: env where
  "referenceEnv = specEnv referenceTank testFisher"

definition organizationProps :: "(string \<times> json) list" where
  "organizationProps = [(''resourceType'', JStr ''Organization''), (''id'', JStr ''org-id'')]"

definition referringProps :: "(string \<times> json) list" where
  "referringProps = [(''resourceType'', JStr ''Patient''), (''id'', JStr ''Referring'')]"

definition containingProps :: "(string \<times> json) list" where
  "containingProps =
     [(''resourceType'', JStr ''Patient''), (''id'', JStr ''Containing''),
      (''contained'', JObj organizationProps)]"

subsection \<open>Configurations\<close>

definition minimalConfig :: Configuration where
  "minimalConfig = \<lparr>cfg_id = ''fhir.us.minimal'', cfg_template = Some ''hl7.fhir.template#0.0.5''\<rparr>"

definition templatelessConfig :: Configuration where
  "templatelessConfig = minimalConfig\<lparr>cfg_template := None\<rparr>"

definition emptyOutput :: igState where
  "emptyOutput = \<lparr>outputIgIni = None, igLogger = []\<rparr>"

section \<open>Multi-line strings\<close>

lemma tripleQuote_length: "length tripleQuote = 3"
  by (simp add: tripleQuote_def)

text \<open>
  Claim C7.  A triple-quoted string loses its first line when that line is empty and
  its last line when that line is whitespace only, and the common indentation of the
  remaining lines is removed, so that a line indented less than the others is never
  truncated.  The importer does not do the last part: a line that is not indented at
  all is left out of the computation of the indentation, and it loses as many
  characters as the least indented of the other lines has leading whitespace.  The
  token below consists of the two lines \<^verbatim>\<open>    a\<close> and \<^verbatim>\<open>bcdefg\<close>; their common
  indentation is empty, yet the result is \<^verbatim>\<open>a\<close> and \<^verbatim>\<open>fg\<close>.
\<close>

theorem extractMultilineString_truncates_unindented_line:
  "extractMultilineString
     (tripleQuote @ [newline] @ ''    a'' @ [newline] @ ''bcdefg'' @ [newline] @ tripleQuote)
   = ''a'' @ [newline] @ ''fg''"
  by (simp add: extractMultilineString_def sliceFromEnd_def tripleQuote_def newline_def
      dropLastBlank_def onlyWhitespace_def isWhitespace_def minSpacesOf_def
      minSpacesStep_def firstNonSpace_def trimLine_def)

section \<open>The importer is single-use\<close>

lemma visitAlias_used: "used (visitAlias k v imp) = used imp"
  by (simp add: visitAlias_def)

lemma collectAliases_used: "used (collectAliases es imp) = used imp"
  by (induction es arbitrary: imp) (auto simp: visitAlias_used split: entityContext.splits)

lemma visitEntity_used: "visitEntity vr c imp = (imp', lg) \<Longrightarrow> used imp' = used imp"
  by (cases c)
     (auto simp: visitEntity_def visitAlias_used visitProfile_def visitExtension_def Let_def
           split: prod.splits)

lemma visitEntities_used: "visitEntities vr es imp = (imp', lg) \<Longrightarrow> used imp' = used imp"
proof (induction es arbitrary: imp imp' lg)
  case Nil
  then show ?case by simp
next
  case (Cons c es)
  obtain i1 l1 where c: "visitEntity vr c imp = (i1, l1)" by (cases "visitEntity vr c imp")
  obtain i2 l2 where es: "visitEntities vr es i1 = (i2, l2)" by (cases "visitEntities vr es i1")
  from Cons.prems c es have "imp' = i2" by simp
  with Cons.IH[OF es] visitEntity_used[OF c] show ?case by simp
qed

lemma visitDoc_marks_used: "visitDoc vr ctx imp = (r, imp', lg) \<Longrightarrow> used imp'"
  by (auto simp: visitDoc_def Let_def collectAliases_used split: if_splits prod.splits
           dest!: visitEntities_used)

text \<open>
  Claim C6.  The importer is single-use.  Whatever the first call of \<^verbatim>\<open>visitDoc\<close> was
  given, a second call on the same importer returns nothing, logs exactly the error that
  the importer cannot be re-used, and leaves the importer, its document included, as the
  first call left it; the first call of a fresh importer returns that document.
\<close>

theorem visitDoc_single_use:
  assumes first: "visitDoc visitSdRule ctx1 imp = (r1, imp1, lg1)"
      and second: "visitDoc visitSdRule ctx2 imp1 = (r2, imp2, lg2)"
  shows "r2 = None \<and> lg2 = [LogEntry Error ImporterReused None] \<and> imp2 = imp1
         \<and> (\<not> used imp \<longrightarrow> r1 = Some (doc imp2))"
proof -
  have u: "used imp1" using first by (rule visitDoc_marks_used)
  have r: "\<not> used imp \<longrightarrow> r1 = Some (doc imp1)" using first
    by (auto simp: visitDoc_def Let_def split: if_splits prod.splits)
  show ?thesis using u r second by (simp add: visitDoc_def)
qed

text \<open>The example document, visited twice by a new importer: the first call returns the
  document with the profile, its parent resolved through the alias, and logs the warning
  of the rule that is not supported; the second call returns nothing and logs the
  error.\<close>

theorem visitDoc_single_use_witness:
  "\<not> used (newFSHImporter ''a.fsh'' :: nat FSHImporter) \<and>
   (case visitDoc numberRules exampleDoc (newFSHImporter ''a.fsh'') of (r1, imp1, lg1) \<Rightarrow>
      case visitDoc numberRules exampleDoc imp1 of (r2, imp2, lg2) \<Rightarrow>
        r2 = None \<and> lg2 = [LogEntry Error ImporterReused None] \<and> imp2 = imp1 \<and>
        r1 = Some (doc imp2) \<and>
        map (\<lambda>(k, p). (k, sd_parent p, sd_rules p)) (profiles (doc imp2)) =
          [(''ObservationProfile'', Some ''http://hl7.org/fhir/StructureDefinition/Observation'',
            [0, 1])] \<and>
        lg1 = [LogEntry Warn (UnsupportedRule ''0'') None])"
proof -
  obtain r1 imp1 lg1
    where a: "visitDoc numberRules exampleDoc (newFSHImporter ''a.fsh'') = (r1, imp1, lg1)"
    by (cases "visitDoc numberRules exampleDoc (newFSHImporter ''a.fsh'')")
  obtain r2 imp2 lg2 where b: "visitDoc numberRules exampleDoc imp1 = (r2, imp2, lg2)"
    by (cases "visitDoc numberRules exampleDoc imp1")
  have u: "\<not> used (newFSHImporter ''a.fsh'' :: nat FSHImporter)"
    by (simp add: newFSHImporter_def)
  have c: "map (\<lambda>(k, p). (k, sd_parent p, sd_rules p)) (profiles (doc imp1)) =
             [(''ObservationProfile'', Some ''http://hl7.org/fhir/StructureDefinition/Observation'',
               [0, 1])] \<and>
           lg1 = [LogEntry Warn (UnsupportedRule ''0'') None]"
    using a
    by (auto simp add: visitDoc_def newFSHImporter_def exampleDoc_def numberRules_def
        visitAlias_def visitEntity_def visitProfile_def parseProfileOrExtension_def
        newSdEntity_def visitSdMetadata_def setMetadata_def aliasAwareValue_def Let_def)
  from visitDoc_single_use[OF a b] u c show ?thesis
    by (simp add: a b)
qed

section \<open>The exporter: states only grow\<close>

lemma logTo_simps [simp]:
  "pkg_instances (logTo l st) = pkg_instances st"
  "logger (logTo l st) = logger st @ l"
  by (simp_all add: logTo_def)

lemma logTo_Nil [simp]: "logTo [] st = st"
  by (simp add: logTo_def)

lemma pushed_simps [simp]:
  "pkg_instances (pushed d st) = pkg_instances st @ [d]"
  "logger (pushed d st) = logger st"
  by (simp_all add: pushed_def)

lemma warned_simps [simp]:
  "pkg_instances (warned f sd st) = pkg_instances st"
  by (simp add: warned_def)

lemma grows_refl [simp]: "grows st st"
  by (simp add: grows_def)

lemma grows_trans: "grows a b \<Longrightarrow> grows b c \<Longrightarrow> grows a c"
  by (auto simp: grows_def intro: prefix_order.trans)

lemma grows_logTo [simp]: "grows st (logTo l st)"
  by (simp add: grows_def)

lemma grows_warned [simp]: "grows st (warned f sd st)"
  by (simp add: warned_def)

lemma grows_pushed [simp]: "grows st (pushed d st)"
  by (simp add: grows_def)

lemma logStable_refl: "logStable R \<Longrightarrow> R s s"
  by (simp add: logStable_def reflpD)

lemma logStable_trans: "logStable R \<Longrightarrow> R a b \<Longrightarrow> R b c \<Longrightarrow> R a c"
  by (auto simp: logStable_def dest: transpD)

lemma logStable_logTo: "logStable R \<Longrightarrow> list_all plain l \<Longrightarrow> R s (logTo l s)"
  by (simp add: logStable_def)

lemma logStable_logTo_left:
  "logStable R \<Longrightarrow> list_all plain l \<Longrightarrow> R (logTo l s) s' \<Longrightarrow> R s s'"
  by (blast intro: logStable_trans logStable_logTo)

lemma plain_helperEntries [simp]: "list_all plain (helperEntries hl)"
  by (simp add: helperEntries_def list_all_iff plain_def isDuplicateIdError_def
      isNotAResourceWarning_def)

lemma plain_CannotFindInstance [simp]: "plain (LogEntry l (CannotFindInstance v) s)"
  by (simp add: plain_def isDuplicateIdError_def isNotAResourceWarning_def)

lemma plain_RuleError [simp]: "plain (LogEntry l (RuleError m) s)"
  by (simp add: plain_def isDuplicateIdError_def isNotAResourceWarning_def)

lemma plain_MissingRequiredElement [simp]: "plain (LogEntry l (MissingRequiredElement i m k) s)"
  by (simp add: plain_def isDuplicateIdError_def isNotAResourceWarning_def)

lemma recordRules_log:
  "recordRules e irps rs (rm, sd, lg) = (rm', sd', lg') \<Longrightarrow> list_all plain lg \<Longrightarrow>
   list_all plain lg'"
proof (induction rs arbitrary: rm sd lg)
  case Nil
  then show ?case by simp
next
  case (Cons rule rs)
  obtain res sd1 where v:
    "validateValueAtPath e sd (rule_path rule) (rule_value rule) (inlineResourceTypes irps rule)
       = (res, sd1)"
    by (cases "validateValueAtPath e sd (rule_path rule) (rule_value rule)
                 (inlineResourceTypes irps rule)")
  show ?case
  proof (cases res)
    case (Inl msg)
    with Cons.prems v
    have "recordRules e irps rs
            (rm, sd1, lg @ [LogEntry Error (RuleError msg) (Some (rule_sourceInfo rule))])
          = (rm', sd', lg')"
      by simp
    from Cons.IH[OF this] Cons.prems(2) show ?thesis by simp
  next
    case (Inr ok)
    with Cons.prems v
    have "recordRules e irps rs (AList.update (rule_path rule) ok rm, sd1, lg) = (rm', sd', lg')"
      by simp
    from Cons.IH[OF this] Cons.prems(2) show ?thesis by simp
  qed
qed

lemma holdsAcrossD: "holdsAcross R exp \<Longrightarrow> exp f s = (r, s') \<Longrightarrow> R s s'"
  by (simp add: holdsAcross_def)

lemma fishForFHIR_rel:
  assumes st: "logStable R"
      and exp: "holdsAcross R exp"
      and run: "fishForFHIR exp e item st = (r, st')"
  shows "R st st'"
proof (cases "pkg_fish (pkg_instances st) item")
  case (Some d)
  with run have "st' = st" by (simp add: fishForFHIR_def)
  then show ?thesis by (simp add: logStable_refl[OF st])
next
  case None
  show ?thesis
  proof (cases "tank_fish (tank e) item")
    case None
    with \<open>pkg_fish (pkg_instances st) item = None\<close> run have "st' = st"
      by (simp add: fishForFHIR_def)
    then show ?thesis by (simp add: logStable_refl[OF st])
  next
    case (Some f)
    obtain r1 st1 where call: "exp f st = (r1, st1)" by (cases "exp f st")
    with Some \<open>pkg_fish (pkg_instances st) item = None\<close> run have "st' = st1"
      by (cases r1) (simp_all add: fishForFHIR_def)
    with holdsAcrossD[OF exp call] show ?thesis by simp
  qed
qed

lemma convertInstanceRules_rel:
  assumes st: "logStable R"
      and exp: "holdsAcross R exp"
  shows "convertInstanceRules exp e rs st = (r, st') \<Longrightarrow> R st st'"
proof (induction rs arbitrary: st r st')
  case Nil
  then show ?case by (simp add: logStable_refl[OF st])
next
  case (Cons a rs)
  show ?case
  proof (cases "rule_isInstance a")
    case False
    with Cons.prems obtain r2 st2 where "convertInstanceRules exp e rs st = (r2, st2)" "st' = st2"
      by (auto split: prod.splits outcome.splits)
    with Cons.IH show ?thesis by simp
  next
    case True
    obtain r1 st1 where f:
      "(case rule_value a of VString item \<Rightarrow> fishForFHIR exp e item st
        | _ \<Rightarrow> (Returned None, st)) = (r1, st1)"
      by (cases "(case rule_value a of VString item \<Rightarrow> fishForFHIR exp e item st
                  | _ \<Rightarrow> (Returned None, st))")
    have g1: "R st st1"
      using f fishForFHIR_rel[OF st exp] logStable_refl[OF st]
      by (auto split: ruleValue.splits)
    show ?thesis
    proof (cases r1)
      case (Returned x)
      show ?thesis
      proof (cases x)
        case None
        with Returned True f Cons.prems
        have "convertInstanceRules exp e rs
                (logTo [LogEntry Error (CannotFindInstance (rule_value a)) (Some (rule_sourceInfo a))] st1)
              = (r, st')"
          by simp
        from Cons.IH[OF this] have "R st1 st'" by (rule logStable_logTo_left[OF st, rotated]) simp
        with g1 show ?thesis by (rule logStable_trans[OF st])
      next
        case (Some d)
        with Returned True f Cons.prems obtain r2 st2
          where "convertInstanceRules exp e rs st1 = (r2, st2)" "st' = st2"
          by (auto split: prod.splits outcome.splits)
        with Cons.IH g1 show ?thesis by (auto intro: logStable_trans[OF st])
      qed
    next
      case (Thrown x)
      with True f Cons.prems g1 show ?thesis by simp
    next
      case OutOfFuel
      with True f Cons.prems g1 show ?thesis by simp
    qed
  qed
qed

lemma setAssignedValues_rel:
  assumes st: "logStable R"
      and exp: "holdsAcross R exp"
      and run: "setAssignedValues exp e fsh d sd st = (r, st')"
  shows "R st st'"
proof -
  obtain ins lg0 where a: "applyInsertRules e fsh = (ins, lg0)"
    by (cases "applyInsertRules e fsh")
  let ?rules1 = "map (replaceReferences e)
                   (map (\<lambda>r. r\<lparr>rule_path := removeZeroIndices (rule_path r)\<rparr>) ins)"
  obtain r1 st1 where c:
    "convertInstanceRules exp e ?rules1 (logTo (helperEntries lg0) st) = (r1, st1)"
    by (cases "convertInstanceRules exp e ?rules1 (logTo (helperEntries lg0) st)")
  have g: "R st st1"
    using convertInstanceRules_rel[OF st exp c]
    by (rule logStable_logTo_left[OF st, rotated]) simp
  have "R st1 st'"
  proof (cases r1)
    case (Returned rules2)
    show ?thesis
    proof (cases "inlineResourcePaths rules2")
      case (Inl x)
      with run a c Returned show ?thesis
        by (simp add: setAssignedValues_def logStable_refl[OF st])
    next
      case (Inr irps)
      obtain rm sd1 lg1 where rr: "recordRules e irps rules2 ([], sd, []) = (rm, sd1, lg1)"
        by (cases "recordRules e irps rules2 ([], sd, [])") auto
      from recordRules_log[OF rr] have "list_all plain lg1" by simp
      moreover from run a c Returned Inr rr have "st' = logTo lg1 st1"
        by (simp add: setAssignedValues_def Let_def)
      ultimately show ?thesis by (simp add: logStable_logTo[OF st])
    qed
  next
    case (Thrown x)
    with run a c show ?thesis by (simp add: setAssignedValues_def logStable_refl[OF st])
  next
    case OutOfFuel
    with run a c show ?thesis by (simp add: setAssignedValues_def logStable_refl[OF st])
  qed
  with g show ?thesis by (rule logStable_trans[OF st])
qed


section \<open>The steps of exportInstance\<close>

lemma exportInstanceWith_already:
  "alreadyExported f st \<Longrightarrow> exportInstanceWith exp e f st = (Returned None, st)"
  by (simp add: exportInstanceWith_def alreadyExported_def)

lemma exportInstanceWith_undefined:
  "\<not> alreadyExported f st \<Longrightarrow> fisher e (inst_instanceOf f) instanceOfKinds = None \<Longrightarrow>
   exportInstanceWith exp e f st =
     (Thrown (InstanceOfNotDefinedError (inst_name f) (inst_instanceOf f) (inst_sourceInfo f)), st)"
  by (simp add: exportInstanceWith_def alreadyExported_def instanceOfKinds_def)

lemma exportInstanceWith_found:
  assumes "\<not> alreadyExported f st"
      and "fisher e (inst_instanceOf f) instanceOfKinds = Some sd"
  shows "exportInstanceWith exp e f st =
     (case setAssignedValues exp e (expanded e f sd) (initialDefinition f sd) sd (started e f sd st) of
        (Returned (props1, sd1), st3) \<Rightarrow>
          (case finishExport e (expanded e f sd) (length (pkg_instances st)) (initialDefinition f sd)
                  props1 sd1 st3 of
             (instanceDef, st5) \<Rightarrow> (Returned (Some instanceDef), st5))
      | (Thrown x, st3) \<Rightarrow> (Thrown x, st3)
      | (OutOfFuel, st3) \<Rightarrow> (OutOfFuel, st3))"
proof -
  obtain mixed lg where m: "applyMixinRules e (forcedUsage f sd) = (mixed, lg)"
    by (cases "applyMixinRules e (forcedUsage f sd)")
  have x: "expanded e f sd = (forcedUsage f sd)\<lparr>inst_rules := mixed\<rparr>"
    by (simp add: expanded_def m)
  have s: "started e f sd st =
             logTo (helperEntries lg) (pushed (initialDefinition f sd) (warned f sd st))"
    by (simp add: started_def m)
  obtain r st3 where run:
    "setAssignedValues exp e (expanded e f sd) (initialDefinition f sd) sd (started e f sd st) = (r, st3)"
    by (cases "setAssignedValues exp e (expanded e f sd) (initialDefinition f sd) sd (started e f sd st)")
  show ?thesis
    using assms run m
    by (cases r)
       (simp_all add: exportInstanceWith_def alreadyExported_def instanceOfKinds_def Let_def
          expanded_def initialDefinition_def started_def)
qed

lemma finishExport_result:
  assumes "finishExport e f k d0 props1 sd1 st3 = (d, st5)"
  shows "d = d0\<lparr>props := cleanResource e (fst (validateId e props1 (inst_sourceInfo f)))\<rparr>"
    and "pkg_instances st5 = (pkg_instances st3)[k := d]"
    and "logger st5 =
           logger st3 @ helperEntries (snd (validateId e props1 (inst_sourceInfo f)))
           @ validateRequiredElements (d0\<lparr>props := fst (validateId e props1 (inst_sourceInfo f))\<rparr>) sd1 f
           @ (if hasDuplicateId ((pkg_instances st3)[k := d]) k d
              then [LogEntry Error (DuplicateInstanceId (resourceType d) (instanceId d))
                      (Some (inst_sourceInfo f))]
              else [])"
  using assms
  by (auto simp: finishExport_def Let_def split: prod.splits if_splits)

lemma cardinalityErrors_plain: "x \<in> set (cardinalityErrors ic child f) \<Longrightarrow> plain x"
  by (auto simp: cardinalityErrors_def split: option.splits json.splits if_splits)

lemma validateRequiredChildElements_plain:
  "x \<in> set (validateRequiredChildElements j el f) \<Longrightarrow> plain x"
proof (induction j el f arbitrary: x rule: validateRequiredChildElements.induct)
  case (1 inst eid epath emin esn eassigned children fshDefinition)
  from "1.prems" obtain child where c: "child \<in> set children"
    and x: "x \<in> set (concat (map (\<lambda>v. validateRequiredChildElements v child fshDefinition)
                  (childInstances (instanceChildOf inst child children) child)))
            \<or> x \<in> set (cardinalityErrors (instanceChildOf inst child children) child fshDefinition)"
    by auto
  from x show ?case
  proof
    assume "x \<in> set (concat (map (\<lambda>v. validateRequiredChildElements v child fshDefinition)
                  (childInstances (instanceChildOf inst child children) child)))"
    then obtain v where "v \<in> set (childInstances (instanceChildOf inst child children) child)"
      and "x \<in> set (validateRequiredChildElements v child fshDefinition)"
      by auto
    with c show ?thesis by (rule "1.IH")
  next
    assume "x \<in> set (cardinalityErrors (instanceChildOf inst child children) child fshDefinition)"
    then show ?thesis by (rule cardinalityErrors_plain)
  qed
qed

lemma validateRequiredElements_plain: "list_all plain (validateRequiredElements d sd f)"
  by (auto simp: validateRequiredElements_def list_all_iff dest: validateRequiredChildElements_plain)

section \<open>The package keeps its instances\<close>

lemma grows_logStable: "logStable grows"
  by (auto simp: logStable_def reflp_def transp_def intro: grows_trans)

lemma grows_prefixes:
  "grows st st' \<Longrightarrow> prefix (pkg_instances st) (pkg_instances st')"
  "grows st st' \<Longrightarrow> prefix (logger st) (logger st')"
  by (simp_all add: grows_def)

lemma grows_length: "grows st st' \<Longrightarrow> length (pkg_instances st) \<le> length (pkg_instances st')"
  by (simp add: grows_def prefix_length_le)

lemma logged_grows: "grows st st' \<Longrightarrow> logger st' = logger st @ logged st st'"
  by (auto simp: grows_def logged_def prefix_def)

lemma logged_trans: "grows a b \<Longrightarrow> grows b c \<Longrightarrow> logged a c = logged a b @ logged b c"
  by (auto simp: grows_def logged_def prefix_def)

lemma logged_same [simp]: "logged st st = []"
  by (simp add: logged_def)

lemma logged_logTo [simp]: "logged st (logTo l st) = l"
  by (simp add: logged_def)

lemma quiet_refl [simp]: "quiet st st"
  by (simp add: quiet_def)

lemma quiet_trans:
  assumes "quiet a b" and "quiet b c"
  shows "quiet a c"
proof -
  from assms have g: "grows a b" "grows b c" by (simp_all add: quiet_def)
  then have gac: "grows a c" by (rule grows_trans)
  show ?thesis
    unfolding quiet_def
  proof (intro conjI impI)
    show "grows a c" by (rule gac)
  next
    assume len: "length (pkg_instances c) = length (pkg_instances a)"
    with grows_length[OF g(1)] grows_length[OF g(2)]
    have "length (pkg_instances b) = length (pkg_instances a)"
      and "length (pkg_instances c) = length (pkg_instances b)" by simp_all
    with assms show "pkg_instances c = pkg_instances a" by (simp add: quiet_def)
  next
    assume len: "length (pkg_instances c) = length (pkg_instances a)"
    with grows_length[OF g(1)] grows_length[OF g(2)]
    have "length (pkg_instances b) = length (pkg_instances a)"
      and "length (pkg_instances c) = length (pkg_instances b)" by simp_all
    with assms show "list_all plain (logged a c)"
      by (simp add: quiet_def logged_trans[OF g])
  qed
qed

lemma quiet_logStable: "logStable quiet"
  by (auto simp: logStable_def reflp_def transp_def quiet_def[of _ "logTo _ _"]
      intro: quiet_trans)

lemma keeps_refl [simp]: "keeps st st"
  by (simp add: keeps_def)

lemma keeps_trans: "keeps a b \<Longrightarrow> keeps b c \<Longrightarrow> keeps a c"
  by (auto simp: keeps_def intro: grows_trans)

lemma instanceNames_logTo [simp]: "instanceNames (logTo l st) = instanceNames st"
  by (simp add: instanceNames_def)

lemma keeps_logStable: "logStable keeps"
  by (auto simp: logStable_def reflp_def transp_def keeps_def intro: grows_trans)

lemma initialDefinition_name [simp]:
  "meta_name (instanceMeta (initialDefinition f sd)) = inst_id f"
  by (simp add: initialDefinition_def newInstanceDefinition_def forcedUsage_def)

lemma alreadyExported_iff: "alreadyExported f st \<longleftrightarrow> inst_id f \<in> set (instanceNames st)"
  by (force simp: alreadyExported_def instanceNames_def list_ex_iff)

lemma started_package [simp]:
  "pkg_instances (started e f sd st) = pkg_instances st @ [initialDefinition f sd]"
  by (simp add: started_def)

lemma started_names [simp]: "instanceNames (started e f sd st) = instanceNames st @ [inst_id f]"
  by (simp add: instanceNames_def)

lemma grows_started [simp]: "grows st (started e f sd st)"
  by (simp add: grows_def started_def warned_def)

lemma keeps_started: "\<not> alreadyExported f st \<Longrightarrow> keeps st (started e f sd st)"
  by (simp add: keeps_def alreadyExported_iff)

text \<open>Writing a definition back at the position it was pushed to.\<close>

lemma prefix_update_beyond:
  assumes "prefix (xs @ [d0]) ys"
  shows "prefix xs (ys[length xs := d])" and "length xs < length ys" and "ys ! length xs = d0"
proof -
  from assms obtain zs where ys: "ys = xs @ d0 # zs" by (auto simp: prefix_def)
  show "prefix xs (ys[length xs := d])" by (simp add: ys list_update_append)
  show "length xs < length ys" by (simp add: ys)
  show "ys ! length xs = d0" by (simp add: ys)
qed

lemma map_update_same:
  assumes "k < length ys" and "g (ys ! k) = g d"
  shows "map g (ys[k := d]) = map g ys"
  using assms by (simp add: map_update list_update_same_conv)

lemma finishExport_meta:
  "finishExport e f k d0 props1 sd1 st3 = (d, st5) \<Longrightarrow> instanceMeta d = instanceMeta d0"
  using finishExport_result(1)[of e f k d0 props1 sd1 st3 d st5] by simp

lemma finishExport_grows:
  assumes fin: "finishExport e f' (length (pkg_instances st)) (initialDefinition f sd) props1 sd1 st3
                  = (d, st5)"
      and g: "grows (started e f sd st) st3"
  shows "grows st st5" and "instanceNames st5 = instanceNames st3"
    and "pkg_instances st5 ! length (pkg_instances st) = d"
    and "pkg_instances st5 = (pkg_instances st3)[length (pkg_instances st) := d]"
    and "length (pkg_instances st) < length (pkg_instances st3)"
proof -
  let ?k = "length (pkg_instances st)"
  let ?d0 = "initialDefinition f sd"
  from g have p: "prefix (pkg_instances st @ [?d0]) (pkg_instances st3)"
    and l: "prefix (logger (started e f sd st)) (logger st3)"
    by (simp_all add: grows_def)
  have "prefix (logger st) (logger (started e f sd st))"
    using grows_started[of st e f sd] by (simp add: grows_def)
  with l have l': "prefix (logger st) (logger st3)" by (meson prefix_order.trans)
  note u = prefix_update_beyond[OF p]
  show pk: "pkg_instances st5 = (pkg_instances st3)[?k := d]"
    by (rule finishExport_result(2)[OF fin])
  have m: "instanceMeta d = instanceMeta ?d0" by (rule finishExport_meta[OF fin])
  show "instanceNames st5 = instanceNames st3"
    unfolding instanceNames_def pk
    by (rule map_update_same) (simp_all add: u m)
  have "prefix (logger st3) (logger st5)"
    by (simp add: finishExport_result(3)[OF fin])
  with l' have "prefix (logger st) (logger st5)" by (rule prefix_order.trans)
  moreover have "prefix (pkg_instances st) (pkg_instances st5)"
    unfolding pk by (rule u(1))
  ultimately show "grows st st5" by (simp add: grows_def)
  show "pkg_instances st5 ! ?k = d" by (simp add: pk u(2))
  show "?k < length (pkg_instances st3)" by (rule u(2))
qed

lemma exportInstanceWith_keeps:
  assumes exp: "holdsAcross keeps exp"
  shows "holdsAcross keeps (exportInstanceWith exp e)"
  unfolding holdsAcross_def
proof (intro allI impI)
  fix f st r st'
  assume run: "exportInstanceWith exp e f st = (r, st')"
  show "keeps st st'"
  proof (cases "alreadyExported f st")
    case True
    with run show ?thesis by (simp add: exportInstanceWith_already)
  next
    case False
    show ?thesis
    proof (cases "fisher e (inst_instanceOf f) instanceOfKinds")
      case None
      with False run show ?thesis by (simp add: exportInstanceWith_undefined)
    next
      case (Some sd)
      obtain r3 st3 where sav:
        "setAssignedValues exp e (expanded e f sd) (initialDefinition f sd) sd (started e f sd st)
           = (r3, st3)"
        by (cases "setAssignedValues exp e (expanded e f sd) (initialDefinition f sd) sd
                     (started e f sd st)")
      have k3: "keeps (started e f sd st) st3"
        by (rule setAssignedValues_rel[OF keeps_logStable exp sav])
      have k03: "keeps st st3"
        by (rule keeps_trans[OF keeps_started[OF False] k3])
      note eq = exportInstanceWith_found[OF False Some, of exp, unfolded sav]
      show ?thesis
      proof (cases r3)
        case (Returned x)
        obtain props1 sd1 where x: "x = (props1, sd1)" by (cases x)
        obtain d st5 where fin:
          "finishExport e (expanded e f sd) (length (pkg_instances st)) (initialDefinition f sd)
             props1 sd1 st3 = (d, st5)"
          by (cases "finishExport e (expanded e f sd) (length (pkg_instances st))
                       (initialDefinition f sd) props1 sd1 st3")
        from run eq Returned x fin have st': "st' = st5" by simp
        from k3 have g3: "grows (started e f sd st) st3" by (simp add: keeps_def)
        note fg = finishExport_grows[OF fin g3]
        from k03 fg(1,2) show ?thesis by (simp add: keeps_def st')
      next
        case (Thrown x)
        with run eq k03 show ?thesis by simp
      next
        case OutOfFuel
        with run eq k03 show ?thesis by simp
      qed
    qed
  qed
qed

lemma exportInstance_keeps: "holdsAcross keeps (exportInstance fuel e)"
proof (induction fuel)
  case 0
  show ?case by (simp add: holdsAcross_def)
next
  case (Suc fuel)
  then show ?case by (simp add: exportInstanceWith_keeps)
qed

lemma exportInstance_grows: "exportInstance fuel e f st = (r, st') \<Longrightarrow> grows st st'"
  using exportInstance_keeps[of fuel e] by (auto simp: holdsAcross_def keeps_def)

lemma exportInstance_distinct:
  "exportInstance fuel e f st = (r, st') \<Longrightarrow> distinct (instanceNames st) \<Longrightarrow>
   distinct (instanceNames st')"
  using exportInstance_keeps[of fuel e] by (auto simp: holdsAcross_def keeps_def)

section \<open>An export that exports nothing on demand\<close>

lemma exportInstanceWith_found_started:
  assumes exp: "holdsAcross grows exp"
      and new: "\<not> alreadyExported f st"
      and sd: "fisher e (inst_instanceOf f) instanceOfKinds = Some sd"
      and run: "exportInstanceWith exp e f st = (r, st')"
  shows "Suc (length (pkg_instances st)) \<le> length (pkg_instances st')"
proof -
  obtain r3 st3 where sav:
    "setAssignedValues exp e (expanded e f sd) (initialDefinition f sd) sd (started e f sd st)
       = (r3, st3)"
    by (cases "setAssignedValues exp e (expanded e f sd) (initialDefinition f sd) sd
                 (started e f sd st)")
  have g3: "grows (started e f sd st) st3"
    by (rule setAssignedValues_rel[OF grows_logStable exp sav])
  from grows_length[OF g3] have l3: "Suc (length (pkg_instances st)) \<le> length (pkg_instances st3)"
    by simp
  note eq = exportInstanceWith_found[OF new sd, of exp, unfolded sav]
  show ?thesis
  proof (cases r3)
    case (Returned x)
    obtain props1 sd1 where x: "x = (props1, sd1)" by (cases x)
    obtain d st5 where fin:
      "finishExport e (expanded e f sd) (length (pkg_instances st)) (initialDefinition f sd)
         props1 sd1 st3 = (d, st5)"
      by (cases "finishExport e (expanded e f sd) (length (pkg_instances st))
                   (initialDefinition f sd) props1 sd1 st3")
    from run eq Returned x fin have "st' = st5" by simp
    with finishExport_grows(4)[OF fin g3] l3 show ?thesis by simp
  next
    case (Thrown x)
    with run eq l3 show ?thesis by simp
  next
    case OutOfFuel
    with run eq l3 show ?thesis by simp
  qed
qed

lemma exportInstance_holds_grows: "holdsAcross grows (exportInstance fuel e)"
  using exportInstance_grows by (auto simp: holdsAcross_def)

lemma exportInstance_quiet: "holdsAcross quiet (exportInstance fuel e)"
  unfolding holdsAcross_def
proof (intro allI impI)
  fix f st r st'
  assume run: "exportInstance fuel e f st = (r, st')"
  have g: "grows st st'" by (rule exportInstance_grows[OF run])
  show "quiet st st'"
  proof (cases fuel)
    case 0
    with run show ?thesis by simp
  next
    case (Suc n)
    with run have run': "exportInstanceWith (exportInstance n e) e f st = (r, st')" by simp
    show ?thesis
    proof (cases "alreadyExported f st")
      case True
      with run' show ?thesis by (simp add: exportInstanceWith_already)
    next
      case False
      show ?thesis
      proof (cases "fisher e (inst_instanceOf f) instanceOfKinds")
        case None
        with False run' show ?thesis by (simp add: exportInstanceWith_undefined)
      next
        case (Some sd)
        from exportInstanceWith_found_started[OF exportInstance_holds_grows False Some run']
        have "length (pkg_instances st') \<noteq> length (pkg_instances st)" by simp
        with g show ?thesis by (simp add: quiet_def)
      qed
    qed
  qed
qed

lemma not_plain_warning [simp]: "\<not> plain (LogEntry l (NotAResource n) s)"
  by (simp add: plain_def isNotAResourceWarning_def)

lemma not_plain_duplicate [simp]: "\<not> plain (LogEntry l (DuplicateInstanceId t i) s)"
  by (simp add: plain_def isDuplicateIdError_def)

lemma filter_plain_none: "list_all plain xs \<Longrightarrow> filter (\<lambda>x. \<not> plain x) xs = []"
  by (induction xs) auto

lemma expanded_sourceInfo [simp]: "inst_sourceInfo (expanded e f sd) = inst_sourceInfo f"
  by (simp add: expanded_def forcedUsage_def)

lemma started_logger:
  "logger (started e f sd st) =
     logger st
     @ (if warnsNotAResource f sd
        then [LogEntry Warn (NotAResource (inst_name f)) (Some (inst_sourceInfo f))] else [])
     @ helperEntries (snd (applyMixinRules e (forcedUsage f sd)))"
  by (simp add: started_def warned_def)

text \<open>What an export that adds one instance to the package does: the instance is new,
  its \<^verbatim>\<open>instanceOf\<close> is found, the package gets the definition at its end, and the
  entries logged that are not plain are the warning and the error of this export.\<close>

lemma exportInstance_alone:
  assumes run: "exportInstance (Suc fuel) e f st = (Returned (Some d), st')"
      and one: "length (pkg_instances st') = Suc (length (pkg_instances st))"
  obtains sd where "\<not> alreadyExported f st"
    and "fisher e (inst_instanceOf f) instanceOfKinds = Some sd"
    and "pkg_instances st' = pkg_instances st @ [d]"
    and "instanceMeta d = instanceMeta (initialDefinition f sd)"
    and "filter (\<lambda>x. \<not> plain x) (logged st st') =
           (if warnsNotAResource f sd
            then [LogEntry Warn (NotAResource (inst_name f)) (Some (inst_sourceInfo f))] else [])
           @ (if hasDuplicateId (pkg_instances st @ [d]) (length (pkg_instances st)) d
              then [LogEntry Error (DuplicateInstanceId (resourceType d) (instanceId d))
                      (Some (inst_sourceInfo f))]
              else [])"
proof -
  let ?exp = "exportInstance fuel e"
  from run have run': "exportInstanceWith ?exp e f st = (Returned (Some d), st')" by simp
  have new: "\<not> alreadyExported f st"
    using run' by (auto simp: exportInstanceWith_already)
  obtain sd where sd: "fisher e (inst_instanceOf f) instanceOfKinds = Some sd"
    using run' new by (cases "fisher e (inst_instanceOf f) instanceOfKinds")
      (auto simp: exportInstanceWith_undefined)
  let ?d0 = "initialDefinition f sd"
  let ?k = "length (pkg_instances st)"
  obtain r3 st3 where sav:
    "setAssignedValues ?exp e (expanded e f sd) ?d0 sd (started e f sd st) = (r3, st3)"
    by (cases "setAssignedValues ?exp e (expanded e f sd) ?d0 sd (started e f sd st)")
  note eq = exportInstanceWith_found[OF new sd, of ?exp, unfolded sav]
  from run' eq obtain props1 sd1 where r3: "r3 = Returned (props1, sd1)"
    by (cases r3) auto
  from run' eq r3 have fin:
    "finishExport e (expanded e f sd) ?k ?d0 props1 sd1 st3 = (d, st')"
    by (auto split: prod.splits)
  have q3: "quiet (started e f sd st) st3"
    by (rule setAssignedValues_rel[OF quiet_logStable exportInstance_quiet sav])
  then have g3: "grows (started e f sd st) st3" by (simp add: quiet_def)
  note fg = finishExport_grows[OF fin g3]
  from fg(4) one have "length (pkg_instances st3) = length (pkg_instances (started e f sd st))"
    by simp
  with q3 have p3: "pkg_instances st3 = pkg_instances st @ [?d0]"
    and l3: "list_all plain (logged (started e f sd st) st3)"
    by (simp_all add: quiet_def)
  have pk: "pkg_instances st' = pkg_instances st @ [d]"
    by (simp add: fg(4) p3)
  have lg3: "logger st3 = logger (started e f sd st) @ logged (started e f sd st) st3"
    by (rule logged_grows[OF g3])
  have lg': "logger st' =
            logger st
            @ (if warnsNotAResource f sd
               then [LogEntry Warn (NotAResource (inst_name f)) (Some (inst_sourceInfo f))] else [])
            @ helperEntries (snd (applyMixinRules e (forcedUsage f sd)))
            @ logged (started e f sd st) st3
            @ helperEntries (snd (validateId e props1 (inst_sourceInfo f)))
            @ validateRequiredElements (?d0\<lparr>props := fst (validateId e props1 (inst_sourceInfo f))\<rparr>)
                sd1 (expanded e f sd)
            @ (if hasDuplicateId (pkg_instances st @ [d]) ?k d
               then [LogEntry Error (DuplicateInstanceId (resourceType d) (instanceId d))
                       (Some (inst_sourceInfo f))]
               else [])"
    using finishExport_result(3)[OF fin] by (simp add: lg3 started_logger p3)
  have "filter (\<lambda>x. \<not> plain x) (logged st st') =
           (if warnsNotAResource f sd
            then [LogEntry Warn (NotAResource (inst_name f)) (Some (inst_sourceInfo f))] else [])
           @ (if hasDuplicateId (pkg_instances st @ [d]) ?k d
              then [LogEntry Error (DuplicateInstanceId (resourceType d) (instanceId d))
                      (Some (inst_sourceInfo f))]
              else [])"
    unfolding logged_def[of st st'] lg'
    by (simp add: filter_plain_none l3 validateRequiredElements_plain)
  with new sd pk finishExport_meta[OF fin] show ?thesis by (rule that)
qed

section \<open>Fuel\<close>

text \<open>
  The fuel of \<^verbatim>\<open>exportInstance\<close> bounds the depth of the exports on demand.  Every
  export on demand is the export of an instance of the tank that is not in the package
  yet, and it puts the instance into the package before it exports anything else on
  demand.  So the depth is at most the number of instances of the tank, and with more
  fuel than that no export runs out of fuel: \<^verbatim>\<open>exportInstance\<close> and \<^verbatim>\<open>export\<close> return
  or throw.
\<close>

lemma pending_grows: "grows st st' \<Longrightarrow> pending e st' \<le> pending e st"
proof -
  assume "grows st st'"
  then have "prefix (instanceNames st) (instanceNames st')"
    by (auto simp: grows_def instanceNames_def prefix_def)
  then have "set (instanceNames st) \<subseteq> set (instanceNames st')"
    by (rule set_mono_prefix)
  then have "inst_id ` set (tank e) - set (instanceNames st')
               \<subseteq> inst_id ` set (tank e) - set (instanceNames st)"
    by blast
  then show ?thesis
    unfolding pending_def by (intro card_mono) simp_all
qed

lemma pending_started:
  assumes "\<not> alreadyExported f st" and "inst_id f \<in> inst_id ` set (tank e)"
  shows "pending e (started e f sd st) < pending e st"
proof -
  from assms(1) have n: "inst_id f \<notin> set (instanceNames st)"
    by (simp add: alreadyExported_iff)
  have "inst_id ` set (tank e) - set (instanceNames (started e f sd st))
          = (inst_id ` set (tank e) - set (instanceNames st)) - {inst_id f}"
    by auto
  moreover have "inst_id f \<in> inst_id ` set (tank e) - set (instanceNames st)"
    using assms(2) n by simp
  ultimately show ?thesis
    unfolding pending_def by (simp only: card_Diff1_less finite_Diff finite_imageI finite_set)
qed

lemma pending_le: "pending e st \<le> length (tank e)"
proof -
  have "pending e st \<le> card (inst_id ` set (tank e))"
    unfolding pending_def by (intro card_mono) auto
  also have "\<dots> \<le> card (set (tank e))" by (intro card_image_le) simp
  also have "\<dots> \<le> length (tank e)" by (rule card_length)
  finally show ?thesis .
qed

lemma tank_fish_member: "tank_fish insts item = Some g \<Longrightarrow> g \<in> set insts"
  by (auto simp: tank_fish_def find_Some_iff)

lemma fishForFHIR_fuel:
  assumes "\<And>g. g \<in> set (tank e) \<Longrightarrow> fst (exp g st) \<noteq> OutOfFuel"
  shows "fst (fishForFHIR exp e item st) \<noteq> OutOfFuel"
proof (cases "tank_fish (tank e) item")
  case None
  then show ?thesis by (simp add: fishForFHIR_def split: option.splits)
next
  case (Some g)
  obtain r1 st1 where call: "exp g st = (r1, st1)" by (cases "exp g st")
  from assms[OF tank_fish_member[OF Some]] call have "r1 \<noteq> OutOfFuel" by simp
  with Some call show ?thesis
    by (cases r1) (simp_all add: fishForFHIR_def split: option.splits)
qed

lemma convertInstanceRules_fuel:
  assumes exp: "holdsAcross grows exp"
      and H: "\<And>g s. g \<in> set (tank e) \<Longrightarrow> grows st0 s \<Longrightarrow> fst (exp g s) \<noteq> OutOfFuel"
  shows "grows st0 st \<Longrightarrow> fst (convertInstanceRules exp e rs st) \<noteq> OutOfFuel"
proof (induction rs arbitrary: st)
  case Nil
  then show ?case by simp
next
  case (Cons a rs)
  show ?case
  proof (cases "rule_isInstance a")
    case False
    with Cons.IH[OF Cons.prems] show ?thesis
      by (auto split: prod.splits outcome.splits)
  next
    case True
    obtain r1 st1 where f:
      "(case rule_value a of VString item \<Rightarrow> fishForFHIR exp e item st
        | _ \<Rightarrow> (Returned None, st)) = (r1, st1)"
      by (cases "(case rule_value a of VString item \<Rightarrow> fishForFHIR exp e item st
                  | _ \<Rightarrow> (Returned None, st))")
    have "grows st st1"
      using f fishForFHIR_rel[OF grows_logStable exp] by (auto split: ruleValue.splits)
    with Cons.prems have g1: "grows st0 st1" by (rule grows_trans)
    have nf: "r1 \<noteq> OutOfFuel"
    proof (cases "rule_value a")
      case (VString item)
      have "fst (fishForFHIR exp e item st) \<noteq> OutOfFuel"
        by (rule fishForFHIR_fuel) (rule H[OF _ Cons.prems])
      with f VString show ?thesis by auto
    qed (use f in auto)
    show ?thesis
    proof (cases r1)
      case (Returned x)
      show ?thesis
      proof (cases x)
        case None
        have "grows st0 (logTo [LogEntry Error (CannotFindInstance (rule_value a))
                                  (Some (rule_sourceInfo a))] st1)"
          by (rule grows_trans[OF g1]) simp
        from Cons.IH[OF this] Returned None True f show ?thesis by simp
      next
        case (Some d)
        with Cons.IH[OF g1] Returned True f show ?thesis
          by (auto split: prod.splits outcome.splits)
      qed
    next
      case (Thrown x)
      with True f show ?thesis by simp
    next
      case OutOfFuel
      with nf show ?thesis by simp
    qed
  qed
qed

lemma setAssignedValues_fuel:
  assumes exp: "holdsAcross grows exp"
      and H: "\<And>g s. g \<in> set (tank e) \<Longrightarrow> grows st s \<Longrightarrow> fst (exp g s) \<noteq> OutOfFuel"
  shows "fst (setAssignedValues exp e f d sd st) \<noteq> OutOfFuel"
proof -
  obtain ins lg0 where a: "applyInsertRules e f = (ins, lg0)"
    by (cases "applyInsertRules e f")
  let ?rules1 = "map (replaceReferences e)
                   (map (\<lambda>r. r\<lparr>rule_path := removeZeroIndices (rule_path r)\<rparr>) ins)"
  obtain r1 st1 where c:
    "convertInstanceRules exp e ?rules1 (logTo (helperEntries lg0) st) = (r1, st1)"
    by (cases "convertInstanceRules exp e ?rules1 (logTo (helperEntries lg0) st)")
  have "fst (convertInstanceRules exp e ?rules1 (logTo (helperEntries lg0) st)) \<noteq> OutOfFuel"
  proof (rule convertInstanceRules_fuel[OF exp])
    show "grows st (logTo (helperEntries lg0) st)" by (rule grows_logTo)
  qed (rule H)
  with c have nf: "r1 \<noteq> OutOfFuel" by simp
  show ?thesis
    using a c nf
    by (cases r1) (auto simp: setAssignedValues_def Let_def split: sum.splits prod.splits)
qed

lemma exportInstanceWith_fuel:
  assumes exp: "holdsAcross grows exp"
      and H: "\<And>sd g s. g \<in> set (tank e) \<Longrightarrow> \<not> alreadyExported f st \<Longrightarrow>
                grows (started e f sd st) s \<Longrightarrow> fst (exp g s) \<noteq> OutOfFuel"
  shows "fst (exportInstanceWith exp e f st) \<noteq> OutOfFuel"
proof (cases "alreadyExported f st")
  case True
  then show ?thesis by (simp add: exportInstanceWith_already)
next
  case new: False
  show ?thesis
  proof (cases "fisher e (inst_instanceOf f) instanceOfKinds")
    case None
    with new show ?thesis by (simp add: exportInstanceWith_undefined)
  next
    case (Some sd)
    obtain r3 st3 where sav:
      "setAssignedValues exp e (expanded e f sd) (initialDefinition f sd) sd (started e f sd st)
         = (r3, st3)"
      by (cases "setAssignedValues exp e (expanded e f sd) (initialDefinition f sd) sd
                   (started e f sd st)")
    have "fst (setAssignedValues exp e (expanded e f sd) (initialDefinition f sd) sd
                 (started e f sd st)) \<noteq> OutOfFuel"
      by (rule setAssignedValues_fuel[OF exp]) (rule H[OF _ new])
    with sav have "r3 \<noteq> OutOfFuel" by simp
    then show ?thesis
      unfolding exportInstanceWith_found[OF new Some] sav
      by (cases r3) (auto split: prod.splits)
  qed
qed

lemma exportInstance_fuel:
  "inst_id f \<in> inst_id ` set (tank e) \<Longrightarrow> pending e st < fuel \<Longrightarrow>
   fst (exportInstance fuel e f st) \<noteq> OutOfFuel"
proof (induction fuel arbitrary: f st)
  case 0
  then show ?case by simp
next
  case (Suc n)
  have "fst (exportInstanceWith (exportInstance n e) e f st) \<noteq> OutOfFuel"
  proof (rule exportInstanceWith_fuel[OF exportInstance_holds_grows])
    fix sd g s
    assume g: "g \<in> set (tank e)" and new: "\<not> alreadyExported f st"
      and gr: "grows (started e f sd st) s"
    have "pending e s \<le> pending e (started e f sd st)" by (rule pending_grows[OF gr])
    also have "\<dots> < pending e st" by (rule pending_started[OF new Suc.prems(1)])
    finally have "pending e s < n" using Suc.prems(2) by simp
    with g show "fst (exportInstance n e g s) \<noteq> OutOfFuel"
      by (intro Suc.IH) simp_all
  qed
  then show ?case by simp
qed

lemma exportInstance_enough_fuel:
  assumes "Suc (length (tank e)) < fuel"
  shows "fst (exportInstance fuel e f st) \<noteq> OutOfFuel"
proof -
  from assms obtain n where fuel: "fuel = Suc n" and n: "length (tank e) < n"
    by (cases fuel) auto
  have "fst (exportInstanceWith (exportInstance n e) e f st) \<noteq> OutOfFuel"
  proof (rule exportInstanceWith_fuel[OF exportInstance_holds_grows])
    fix g s
    assume g: "g \<in> set (tank e)"
    have "pending e s < n" using pending_le[of e s] n by simp
    with g show "fst (exportInstance n e g s) \<noteq> OutOfFuel"
      by (intro exportInstance_fuel) simp_all
  qed
  then show ?thesis by (simp add: fuel)
qed

lemma exportEach_enough_fuel:
  "set fs \<subseteq> set (tank e) \<Longrightarrow> length (tank e) < fuel \<Longrightarrow> exportEach fuel e fs st \<noteq> None"
proof (induction fs arbitrary: st)
  case Nil
  then show ?case by simp
next
  case (Cons f fs)
  obtain r st1 where run: "exportInstance fuel e f st = (r, st1)"
    by (cases "exportInstance fuel e f st")
  have "pending e st < fuel" using pending_le[of e st] Cons.prems(2) by simp
  with Cons.prems(1) have "fst (exportInstance fuel e f st) \<noteq> OutOfFuel"
    by (intro exportInstance_fuel) auto
  with run have nf: "r \<noteq> OutOfFuel" by simp
  have ih: "exportEach fuel e fs s \<noteq> None" for s
    using Cons.IH Cons.prems by simp
  show ?case
  proof (cases r)
    case (Returned x)
    with run ih[of st1] show ?thesis by simp
  next
    case (Thrown x)
    with run ih[of "logTo [caughtEntry x] st1"] show ?thesis by simp
  next
    case OutOfFuel
    with nf show ?thesis by simp
  qed
qed

lemma export_enough_fuel: "length (tank e) < fuel \<Longrightarrow> export fuel e st \<noteq> None"
  using exportEach_enough_fuel[of "tank e" e fuel st]
  by (auto simp: export_def split: option.splits)

text \<open>More fuel changes no result: what an export returns or throws with some fuel, it
  returns or throws with any more.\<close>

lemma agreesWithD:
  "agreesWith exp exp' \<Longrightarrow> exp f s = (r, s') \<Longrightarrow> r \<noteq> OutOfFuel \<Longrightarrow> exp' f s = (r, s')"
  by (simp add: agreesWith_def)

lemma fishForFHIR_agrees:
  assumes a: "agreesWith exp exp'"
      and run: "fishForFHIR exp e item st = (r, st')"
      and nf: "r \<noteq> OutOfFuel"
  shows "fishForFHIR exp' e item st = (r, st')"
proof (cases "pkg_fish (pkg_instances st) item")
  case (Some d)
  with run show ?thesis by (simp add: fishForFHIR_def)
next
  case None
  show ?thesis
  proof (cases "tank_fish (tank e) item")
    case None
    with \<open>pkg_fish (pkg_instances st) item = None\<close> run show ?thesis
      by (simp add: fishForFHIR_def)
  next
    case (Some g)
    obtain r1 st1 where call: "exp g st = (r1, st1)" by (cases "exp g st")
    from run nf Some \<open>pkg_fish (pkg_instances st) item = None\<close> call
    have n1: "r1 \<noteq> OutOfFuel"
      by (cases r1) (auto simp: fishForFHIR_def)
    from agreesWithD[OF a call n1] run Some \<open>pkg_fish (pkg_instances st) item = None\<close> call
    show ?thesis by (simp add: fishForFHIR_def)
  qed
qed

lemma convertInstanceRules_agrees:
  assumes a: "agreesWith exp exp'"
  shows "convertInstanceRules exp e rs st = (r, st') \<Longrightarrow> r \<noteq> OutOfFuel \<Longrightarrow>
         convertInstanceRules exp' e rs st = (r, st')"
proof (induction rs arbitrary: st r st')
  case Nil
  then show ?case by simp
next
  case (Cons x rs)
  show ?case
  proof (cases "rule_isInstance x")
    case False
    obtain r2 st2 where rest: "convertInstanceRules exp e rs st = (r2, st2)"
      by (cases "convertInstanceRules exp e rs st")
    from Cons.prems False rest have "r2 \<noteq> OutOfFuel"
      by (cases r2) auto
    from Cons.IH[OF rest this] Cons.prems False rest show ?thesis by simp
  next
    case True
    let ?fish = "\<lambda>ex. (case rule_value x of VString item \<Rightarrow> fishForFHIR ex e item st
                        | _ \<Rightarrow> (Returned None, st))"
    obtain r1 st1 where f: "?fish exp = (r1, st1)" by (cases "?fish exp")
    from Cons.prems True f have n1: "r1 \<noteq> OutOfFuel"
      by (cases r1) auto
    have f': "?fish exp' = (r1, st1)"
      using f n1 fishForFHIR_agrees[OF a] by (auto split: ruleValue.splits)
    show ?thesis
    proof (cases r1)
      case (Returned y)
      show ?thesis
      proof (cases y)
        case None
        with Returned True f f' Cons.prems Cons.IH show ?thesis by simp
      next
        case (Some d)
        obtain r2 st2 where rest: "convertInstanceRules exp e rs st1 = (r2, st2)"
          by (cases "convertInstanceRules exp e rs st1")
        from Cons.prems True f Returned Some rest have "r2 \<noteq> OutOfFuel"
          by (cases r2) auto
        from Cons.IH[OF rest this] Cons.prems True f f' Returned Some rest show ?thesis
          by simp
      qed
    next
      case (Thrown z)
      with True f f' Cons.prems show ?thesis by simp
    next
      case OutOfFuel
      with n1 show ?thesis by simp
    qed
  qed
qed

lemma setAssignedValues_agrees:
  assumes a: "agreesWith exp exp'"
      and run: "setAssignedValues exp e f d sd st = (r, st')"
      and nf: "r \<noteq> OutOfFuel"
  shows "setAssignedValues exp' e f d sd st = (r, st')"
proof -
  obtain ins lg0 where i: "applyInsertRules e f = (ins, lg0)"
    by (cases "applyInsertRules e f")
  let ?rules1 = "map (replaceReferences e)
                   (map (\<lambda>r. r\<lparr>rule_path := removeZeroIndices (rule_path r)\<rparr>) ins)"
  obtain r1 st1 where c:
    "convertInstanceRules exp e ?rules1 (logTo (helperEntries lg0) st) = (r1, st1)"
    by (cases "convertInstanceRules exp e ?rules1 (logTo (helperEntries lg0) st)")
  from run nf i c have n1: "r1 \<noteq> OutOfFuel"
    by (cases r1) (auto simp: setAssignedValues_def)
  note c' = convertInstanceRules_agrees[OF a c n1]
  from run show ?thesis
    using i c c' by (simp add: setAssignedValues_def)
qed

lemma exportInstanceWith_agrees:
  assumes a: "agreesWith exp exp'"
  shows "agreesWith (exportInstanceWith exp e) (exportInstanceWith exp' e)"
  unfolding agreesWith_def
proof (intro allI impI)
  fix f st r st'
  assume run: "exportInstanceWith exp e f st = (r, st')" and nf: "r \<noteq> OutOfFuel"
  show "exportInstanceWith exp' e f st = (r, st')"
  proof (cases "alreadyExported f st")
    case True
    with run show ?thesis by (simp add: exportInstanceWith_already)
  next
    case new: False
    show ?thesis
    proof (cases "fisher e (inst_instanceOf f) instanceOfKinds")
      case None
      with new run show ?thesis by (simp add: exportInstanceWith_undefined)
    next
      case (Some sd)
      obtain r3 st3 where sav:
        "setAssignedValues exp e (expanded e f sd) (initialDefinition f sd) sd (started e f sd st)
           = (r3, st3)"
        by (cases "setAssignedValues exp e (expanded e f sd) (initialDefinition f sd) sd
                     (started e f sd st)")
      from run nf have n3: "r3 \<noteq> OutOfFuel"
        unfolding exportInstanceWith_found[OF new Some] sav by (cases r3) auto
      note sav' = setAssignedValues_agrees[OF a sav n3]
      from run show ?thesis
        unfolding exportInstanceWith_found[OF new Some] sav sav' .
    qed
  qed
qed

lemma exportInstance_Suc_agrees: "agreesWith (exportInstance n e) (exportInstance (Suc n) e)"
proof (induction n)
  case 0
  then show ?case by (simp add: agreesWith_def)
next
  case (Suc n)
  from exportInstanceWith_agrees[OF Suc] show ?case by simp
qed

lemma exportInstance_more_fuel:
  assumes "exportInstance n e f st = (r, st')" and "r \<noteq> OutOfFuel"
  shows "exportInstance (n + k) e f st = (r, st')"
proof (induction k)
  case 0
  from assms(1) show ?case by simp
next
  case (Suc k)
  from agreesWithD[OF exportInstance_Suc_agrees Suc assms(2)] show ?case by simp
qed

lemma exportEach_more_fuel:
  "exportEach n e fs st = Some st' \<Longrightarrow> exportEach (n + k) e fs st = Some st'"
proof (induction fs arbitrary: st)
  case Nil
  then show ?case by simp
next
  case (Cons f fs)
  obtain r st1 where run: "exportInstance n e f st = (r, st1)"
    by (cases "exportInstance n e f st")
  from Cons.prems run have nf: "r \<noteq> OutOfFuel" by (cases r) auto
  note run' = exportInstance_more_fuel[OF run nf, of k]
  from Cons.prems run run' Cons.IH show ?case
    by (cases r) auto
qed

lemma export_more_fuel: "export n e st = Some st' \<Longrightarrow> export (n + k) e st = Some st'"
  by (auto simp: export_def exportEach_more_fuel split: option.splits)


section \<open>Exporting an instance once\<close>

lemma exportInstance_exported:
  assumes "exportInstance fuel e f st = (Returned x, st')"
  shows "alreadyExported f st'"
proof (cases fuel)
  case 0
  with assms show ?thesis by simp
next
  case (Suc n)
  with assms have run: "exportInstanceWith (exportInstance n e) e f st = (Returned x, st')" by simp
  show ?thesis
  proof (cases "alreadyExported f st")
    case True
    with run show ?thesis by (simp add: exportInstanceWith_already)
  next
    case False
    then obtain sd where sd: "fisher e (inst_instanceOf f) instanceOfKinds = Some sd"
      using run by (cases "fisher e (inst_instanceOf f) instanceOfKinds")
        (auto simp: exportInstanceWith_undefined)
    obtain r3 st3 where sav:
      "setAssignedValues (exportInstance n e) e (expanded e f sd) (initialDefinition f sd) sd
         (started e f sd st) = (r3, st3)"
      by (cases "setAssignedValues (exportInstance n e) e (expanded e f sd) (initialDefinition f sd)
                   sd (started e f sd st)")
    have g3: "grows (started e f sd st) st3"
      by (rule setAssignedValues_rel[OF grows_logStable exportInstance_holds_grows sav])
    note eq = exportInstanceWith_found[OF False sd, of "exportInstance n e", unfolded sav]
    from run eq obtain props1 sd1 where r3: "r3 = Returned (props1, sd1)"
      by (cases r3) auto
    from run eq r3 obtain d where fin:
      "finishExport e (expanded e f sd) (length (pkg_instances st)) (initialDefinition f sd)
         props1 sd1 st3 = (d, st')"
      by (auto split: prod.splits)
    have "instanceNames st' = instanceNames st3" by (rule finishExport_grows(2)[OF fin g3])
    moreover from g3 have "prefix (instanceNames (started e f sd st)) (instanceNames st3)"
      unfolding instanceNames_def grows_def by (auto simp: prefix_def)
    then have "inst_id f \<in> set (instanceNames st3)"
      by (auto simp: prefix_def)
    ultimately show ?thesis by (simp add: alreadyExported_iff)
  qed
qed

lemma distinct_once:
  "distinct xs \<Longrightarrow> x \<in> set xs \<Longrightarrow> length (filter (\<lambda>y. y = x) xs) = 1"
proof (induction xs)
  case Nil
  then show ?case by simp
next
  case (Cons a xs)
  show ?case
  proof (cases "a = x")
    case True
    with Cons.prems have "x \<notin> set xs" by simp
    then have "filter (\<lambda>y. y = x) xs = []" by (auto simp: filter_empty_conv)
    with True show ?thesis by simp
  next
    case False
    with Cons show ?thesis by simp
  qed
qed

lemma exportEach_keeps: "exportEach fuel e fs st = Some st' \<Longrightarrow> keeps st st'"
proof (induction fs arbitrary: st)
  case Nil
  then show ?case by simp
next
  case (Cons f fs)
  obtain r st1 where run: "exportInstance fuel e f st = (r, st1)"
    by (cases "exportInstance fuel e f st")
  have k1: "keeps st st1"
    using exportInstance_keeps[of fuel e] run by (auto simp: holdsAcross_def)
  show ?case
  proof (cases r)
    case (Returned x)
    with Cons.prems run have "exportEach fuel e fs st1 = Some st'" by simp
    from Cons.IH[OF this] k1 show ?thesis by (blast intro: keeps_trans)
  next
    case (Thrown x)
    with Cons.prems run have "exportEach fuel e fs (logTo [caughtEntry x] st1) = Some st'" by simp
    from Cons.IH[OF this] have "keeps (logTo [caughtEntry x] st1) st'" .
    moreover have "keeps st1 (logTo [caughtEntry x] st1)" by (simp add: keeps_def)
    ultimately show ?thesis using k1 by (blast intro: keeps_trans)
  next
    case OutOfFuel
    with Cons.prems run show ?thesis by simp
  qed
qed

lemma export_keeps: "export fuel e st = Some st' \<Longrightarrow> keeps st st'"
proof -
  assume a: "export fuel e st = Some st'"
  then obtain st1 where e1: "exportEach fuel e (tank e) st = Some st1"
    and st': "st' = (if length (tank e) > 0
                     then logTo [LogEntry Info (ConvertedInstances (length (tank e))) None] st1
                     else st1)"
    by (auto simp: export_def split: option.splits)
  have "keeps st1 st'" by (simp add: st' keeps_def)
  with exportEach_keeps[OF e1] show ?thesis by (blast intro: keeps_trans)
qed

text \<open>
  Claim C9.  Exporting an instance is idempotent on the package.  When the package
  already holds a definition under the id of an instance, \<^verbatim>\<open>exportInstance\<close> returns
  nothing and changes neither the package nor the log.  That is the case after every
  export of the instance that returned, so a repeated export does nothing; and the
  names of the definitions in the package stay distinct, so the instance is in the
  package exactly once, also when another instance exported it on demand and at the end of
  \<^verbatim>\<open>export\<close>.
\<close>

theorem exportInstance_only_once:
  "(alreadyExported f st \<longrightarrow> exportInstance (Suc fuel) e f st = (Returned None, st)) \<and>
   (\<forall>n g x st1. distinct (instanceNames st) \<and> exportInstance n e g st = (Returned x, st1) \<longrightarrow>
        exportInstance (Suc fuel) e g st1 = (Returned None, st1) \<and>
        distinct (instanceNames st1) \<and>
        length (filter (\<lambda>i. meta_name (instanceMeta i) = inst_id g) (pkg_instances st1)) = 1) \<and>
   (\<forall>n st1. distinct (instanceNames st) \<and> export n e st = Some st1 \<longrightarrow> distinct (instanceNames st1))"
proof (intro conjI allI impI)
  assume "alreadyExported f st"
  then show "exportInstance (Suc fuel) e f st = (Returned None, st)"
    by (simp add: exportInstanceWith_already)
next
  fix n g x st1
  assume a: "distinct (instanceNames st) \<and> exportInstance n e g st = (Returned x, st1)"
  then have run: "exportInstance n e g st = (Returned x, st1)" and d: "distinct (instanceNames st)"
    by simp_all
  have ex: "alreadyExported g st1" by (rule exportInstance_exported[OF run])
  then show "exportInstance (Suc fuel) e g st1 = (Returned None, st1)"
    by (simp add: exportInstanceWith_already)
  show d1: "distinct (instanceNames st1)" by (rule exportInstance_distinct[OF run d])
  have "length (filter (\<lambda>i. meta_name (instanceMeta i) = inst_id g) (pkg_instances st1))
          = length (filter (\<lambda>n. n = inst_id g) (instanceNames st1))"
    by (simp add: instanceNames_def filter_map comp_def)
  also have "\<dots> = 1"
    using d1 ex by (simp add: distinct_once alreadyExported_iff)
  finally show "length (filter (\<lambda>i. meta_name (instanceMeta i) = inst_id g) (pkg_instances st1)) = 1" .
next
  fix n st1
  assume "distinct (instanceNames st) \<and> export n e st = Some st1"
  then show "distinct (instanceNames st1)"
    using export_keeps[of n e st st1] by (simp add: keeps_def)
qed

text \<open>The bundle of the test: the patient is exported on demand when the bundle is; its
  own export then does nothing, and each of the two is in the package once.\<close>

theorem exportInstance_only_once_witness:
  "alreadyExported myBundledPatient bundleState \<and>
   exportInstance 1 bundleEnv myBundledPatient bundleState = (Returned None, bundleState) \<and>
   distinct (instanceNames emptyState) \<and>
   exportInstance 3 bundleEnv myBundle emptyState = (Returned (Some bundleDefinition), bundleState) \<and>
   exportInstance 1 bundleEnv myBundle bundleState = (Returned None, bundleState) \<and>
   distinct (instanceNames bundleState) \<and>
   length (filter (\<lambda>i. meta_name (instanceMeta i) = inst_id myBundle) (pkg_instances bundleState)) = 1 \<and>
   export 3 bundleEnv emptyState =
     Some (logTo [LogEntry Info (ConvertedInstances 2) None] bundleState)"
proof -
  have run: "exportInstance 3 bundleEnv myBundle emptyState
               = (Returned (Some bundleDefinition), bundleState)"
    by code_simp
  have ae: "alreadyExported myBundledPatient bundleState"
    by code_simp
  have d0: "distinct (instanceNames emptyState)"
    by (simp add: instanceNames_def emptyState_def)
  have all: "export 3 bundleEnv emptyState =
               Some (logTo [LogEntry Info (ConvertedInstances 2) None] bundleState)"
    by code_simp
  from exportInstance_only_once[of myBundledPatient bundleState 0 bundleEnv] ae
  have a: "exportInstance 1 bundleEnv myBundledPatient bundleState = (Returned None, bundleState)"
    by simp
  from exportInstance_only_once[of myBundledPatient emptyState 0 bundleEnv] d0 run
  have b: "exportInstance 1 bundleEnv myBundle bundleState = (Returned None, bundleState) \<and>
           distinct (instanceNames bundleState) \<and>
           length (filter (\<lambda>i. meta_name (instanceMeta i) = inst_id myBundle)
                     (pkg_instances bundleState)) = 1"
    by (metis One_nat_def)
  from ae a d0 run b all show ?thesis by simp
qed

section \<open>Resolving instanceOf\<close>

lemma exportInstance_definition:
  assumes run: "exportInstance fuel e f st = (Returned (Some d), st')"
  obtains sd where "\<not> alreadyExported f st"
    and "fisher e (inst_instanceOf f) instanceOfKinds = Some sd"
    and "instanceMeta d = instanceMeta (initialDefinition f sd)"
proof (cases fuel)
  case 0
  with run show ?thesis by simp
next
  case (Suc n)
  let ?exp = "exportInstance n e"
  from run Suc have run': "exportInstanceWith ?exp e f st = (Returned (Some d), st')" by simp
  have new: "\<not> alreadyExported f st"
    using run' by (auto simp: exportInstanceWith_already)
  obtain sd where sd: "fisher e (inst_instanceOf f) instanceOfKinds = Some sd"
    using run' new by (cases "fisher e (inst_instanceOf f) instanceOfKinds")
      (auto simp: exportInstanceWith_undefined)
  obtain r3 st3 where sav:
    "setAssignedValues ?exp e (expanded e f sd) (initialDefinition f sd) sd (started e f sd st)
       = (r3, st3)"
    by (cases "setAssignedValues ?exp e (expanded e f sd) (initialDefinition f sd) sd
                 (started e f sd st)")
  note eq = exportInstanceWith_found[OF new sd, of ?exp, unfolded sav]
  from run' eq obtain props1 sd1 where r3: "r3 = Returned (props1, sd1)"
    by (cases r3) auto
  from run' eq r3 have fin:
    "finishExport e (expanded e f sd) (length (pkg_instances st)) (initialDefinition f sd)
       props1 sd1 st3 = (d, st')"
    by (auto split: prod.splits)
  from new sd finishExport_meta[OF fin] show ?thesis by (rule that)
qed

lemma initialDefinition_usage:
  "meta_usage (instanceMeta (initialDefinition f sd)) =
     Some (if sdef_kind sd \<noteq> ''resource'' then Inline else inst_usage f)"
  by (simp add: initialDefinition_def newInstanceDefinition_def forcedUsage_def
      warnsNotAResource_def)

lemma filter_filter_implied:
  "(\<And>x. P x \<Longrightarrow> Q x) \<Longrightarrow> filter P (filter Q xs) = filter P xs"
  by (induction xs) auto

lemma warning_not_plain: "isNotAResourceWarning x \<Longrightarrow> \<not> plain x"
  by (simp add: plain_def)

lemma duplicate_not_plain: "isDuplicateIdError x \<Longrightarrow> \<not> plain x"
  by (simp add: plain_def)

lemma isNotAResourceWarning_simps [simp]:
  "isNotAResourceWarning (LogEntry l (NotAResource n) s)"
  "\<not> isNotAResourceWarning (LogEntry l (DuplicateInstanceId t i) s)"
  by (simp_all add: isNotAResourceWarning_def)

lemma isDuplicateIdError_simps [simp]:
  "isDuplicateIdError (LogEntry l (DuplicateInstanceId t i) s)"
  "\<not> isDuplicateIdError (LogEntry l (NotAResource n) s)"
  by (simp_all add: isDuplicateIdError_def)

text \<open>An instance that is not declared inline and is an instance of something that is
  not a resource is exported as the same instance declared inline is, after the
  warning.\<close>

lemma exportInstanceWith_forced:
  assumes new: "\<not> alreadyExported f st"
      and sd: "fisher e (inst_instanceOf f) instanceOfKinds = Some sd"
      and w: "warnsNotAResource f sd"
  shows "exportInstanceWith exp e f st =
         exportInstanceWith exp e (f\<lparr>inst_usage := Inline\<rparr>)
           (logTo [LogEntry Warn (NotAResource (inst_name f)) (Some (inst_sourceInfo f))] st)"
proof -
  let ?f = "f\<lparr>inst_usage := Inline\<rparr>"
  let ?st = "logTo [LogEntry Warn (NotAResource (inst_name f)) (Some (inst_sourceInfo f))] st"
  have new': "\<not> alreadyExported ?f ?st"
    using new by (simp add: alreadyExported_def)
  have sd': "fisher e (inst_instanceOf ?f) instanceOfKinds = Some sd"
    using sd by simp
  have nw: "\<not> warnsNotAResource ?f sd" by (simp add: warnsNotAResource_def)
  have fu: "forcedUsage ?f sd = forcedUsage f sd"
    using w nw by (simp add: forcedUsage_def)
  have a: "expanded e ?f sd = expanded e f sd"
    by (simp add: expanded_def fu)
  have b: "initialDefinition ?f sd = initialDefinition f sd"
    by (simp add: initialDefinition_def fu)
  have c: "started e ?f sd ?st = started e f sd st"
    using w nw by (simp add: started_def fu b warned_def logTo_def pushed_def)
  show ?thesis
    unfolding exportInstanceWith_found[OF new sd] exportInstanceWith_found[OF new' sd']
      a b c logTo_simps(1)
    by (rule refl)
qed




section \<open>Duplicate ids\<close>

lemma hasDuplicateId_last:
  "hasDuplicateId (xs @ [d]) (length xs) d \<longleftrightarrow>
     meta_usage (instanceMeta d) \<noteq> Some Inline \<and>
     (\<exists>other \<in> set xs. meta_usage (instanceMeta other) \<noteq> Some Inline \<and>
        strictEquals (resourceType d) (resourceType other) \<and>
        strictEquals (instanceId d) (instanceId other))"
proof -
  have "(\<exists>j \<in> set [0..<length (xs @ [d])]. meta_usage (instanceMeta ((xs @ [d]) ! j)) \<noteq> Some Inline \<and>
           strictEquals (resourceType d) (resourceType ((xs @ [d]) ! j)) \<and>
           strictEquals (instanceId d) (instanceId ((xs @ [d]) ! j)) \<and> j \<noteq> length xs)
        \<longleftrightarrow> (\<exists>other \<in> set xs. meta_usage (instanceMeta other) \<noteq> Some Inline \<and>
           strictEquals (resourceType d) (resourceType other) \<and>
           strictEquals (instanceId d) (instanceId other))"
    (is "?l \<longleftrightarrow> ?r")
  proof
    assume ?l
    then obtain j where j: "j \<in> set [0..<length (xs @ [d])]" "j \<noteq> length xs"
      and p: "meta_usage (instanceMeta ((xs @ [d]) ! j)) \<noteq> Some Inline \<and>
           strictEquals (resourceType d) (resourceType ((xs @ [d]) ! j)) \<and>
           strictEquals (instanceId d) (instanceId ((xs @ [d]) ! j))"
      by blast
    from j have lt: "j < length xs" by simp
    then have "xs ! j \<in> set xs" by simp
    moreover from p lt have "meta_usage (instanceMeta (xs ! j)) \<noteq> Some Inline \<and>
           strictEquals (resourceType d) (resourceType (xs ! j)) \<and>
           strictEquals (instanceId d) (instanceId (xs ! j))"
      by (simp add: nth_append)
    ultimately show ?r by blast
  next
    assume ?r
    then obtain other where "other \<in> set xs"
      and p: "meta_usage (instanceMeta other) \<noteq> Some Inline \<and>
           strictEquals (resourceType d) (resourceType other) \<and>
           strictEquals (instanceId d) (instanceId other)"
      by blast
    then obtain j where j: "j < length xs" "xs ! j = other"
      by (auto simp: in_set_conv_nth)
    then have "j \<in> set [0..<length (xs @ [d])]" "j \<noteq> length xs" by simp_all
    moreover from p j have "meta_usage (instanceMeta ((xs @ [d]) ! j)) \<noteq> Some Inline \<and>
           strictEquals (resourceType d) (resourceType ((xs @ [d]) ! j)) \<and>
           strictEquals (instanceId d) (instanceId ((xs @ [d]) ! j))"
      by (simp add: nth_append)
    ultimately show ?l by blast
  qed
  then show ?thesis
    unfolding hasDuplicateId_def list_ex_iff by (rule arg_cong[where f="\<lambda>b. _ \<and> b"])
qed




section \<open>An export that fails\<close>

text \<open>
  Claim C8 does not hold of \<^verbatim>\<open>InstanceExporter.export\<close>.  The claim says that an
  entity whose export raises a fatal error is logged with the source span of that entity
  and is omitted from the results.  The instance \<^verbatim>\<open>Outer\<close> (lines 3 to 11) sets
  \<^verbatim>\<open>active\<close> and contains the instance \<^verbatim>\<open>Contained\<close> (lines 13 to 20), whose
  \<^verbatim>\<open>instanceOf\<close> is not defined.  \<^verbatim>\<open>exportInstance\<close> pushes the definition of
  \<^verbatim>\<open>Outer\<close> to the package before it sets the assigned values, and the export of
  \<^verbatim>\<open>Contained\<close> on demand throws from there.  The export of \<^verbatim>\<open>Outer\<close> has failed,
  yet its definition stays in the package, with none of its rules applied (it has no
  \<^verbatim>\<open>active\<close>); the error logged for it has the span of \<^verbatim>\<open>Contained\<close>, and none has
  the span of \<^verbatim>\<open>Outer\<close>.
\<close>

theorem export_keeps_failed_instance:
  "export 2 failingEnv emptyState =
     Some \<lparr>pkg_instances =
             [exampleDefinition ''Outer''
                [(''resourceType'', JStr ''Patient''), (''id'', JStr ''Outer'')]],
           logger = [notDefinedError, notDefinedError, LogEntry Info (ConvertedInstances 2) None]\<rparr> \<and>
   exportInstance 2 failingEnv outerPatient emptyState =
     (Thrown (InstanceOfNotDefinedError ''Contained'' ''Bogus'' (lines 13 20)),
      \<lparr>pkg_instances =
         [exampleDefinition ''Outer''
            [(''resourceType'', JStr ''Patient''), (''id'', JStr ''Outer'')]],
       logger = []\<rparr>)"
  by code_simp

section \<open>The order of the assignments\<close>

lemma map_of_rev_filter_other:
  "k \<notin> S \<Longrightarrow> map_of (rev (filter (\<lambda>kv. fst kv \<notin> S) kvs)) k = map_of (rev kvs) k"
  by (induction kvs) (auto simp: map_add_def split: option.splits)

lemma lastValue_Cons:
  "lastValue k' v' ((k, v) # kvs) = (if k' = k then lastValue k v kvs else lastValue k' v' kvs)"
  by (auto simp: lastValue_def map_add_def split: option.splits)

lemma lastValue_filter:
  "k \<notin> S \<Longrightarrow> lastValue k v (filter (\<lambda>kv. fst kv \<notin> S) kvs) = lastValue k v kvs"
  by (simp add: lastValue_def map_of_rev_filter_other)

lemma map_other_key:
  "k \<notin> fst ` set rm \<Longrightarrow> map (\<lambda>(k', v'). (k', if k' = k then v else v')) rm = rm"
  by (induction rm) auto

lemma update_in:
  "k \<in> fst ` set rm \<Longrightarrow> distinct (map fst rm) \<Longrightarrow>
   AList.update k v rm = map (\<lambda>(k', v'). (k', if k' = k then v else v')) rm"
  by (induction rm) (auto simp: rev_image_eqI map_other_key)

lemma update_notin:
  "k \<notin> fst ` set rm \<Longrightarrow> AList.update k v rm = rm @ [(k, v)]"
  by (induction rm) auto

lemma update_keys_in:
  "k \<in> fst ` set rm \<Longrightarrow> fst ` set (AList.update k v rm) = fst ` set rm"
  by (induction rm) auto

lemma foldl_update_oncePerPath:
  "distinct (map fst rm) \<Longrightarrow>
   foldl (\<lambda>m kv. AList.update (fst kv) (snd kv) m) rm kvs =
     map (\<lambda>(k, v). (k, lastValue k v kvs)) rm
     @ oncePerPath (filter (\<lambda>kv. fst kv \<notin> fst ` set rm) kvs)"
proof (induction kvs arbitrary: rm)
  case Nil
  then show ?case by (simp add: lastValue_def case_prod_unfold)
next
  case (Cons kv kvs)
  obtain k v where kv: "kv = (k, v)" by (cases kv)
  show ?case
  proof (cases "k \<in> fst ` set rm")
    case True
    let ?rm = "map (\<lambda>(k', v'). (k', if k' = k then v else v')) rm"
    have u: "AList.update k v rm = ?rm" by (rule update_in[OF True Cons.prems])
    have d: "distinct (map fst ?rm)"
      using Cons.prems by (simp add: case_prod_unfold comp_def)
    have keys: "fst ` set ?rm = fst ` set rm"
      by (force simp: case_prod_unfold)
    have m: "map (\<lambda>(k', v'). (k', lastValue k' v' kvs)) ?rm
           = map (\<lambda>(k', v'). (k', lastValue k' v' ((k, v) # kvs))) rm"
      by (induction rm) (auto simp: lastValue_Cons)
    have "foldl (\<lambda>m kv. AList.update (fst kv) (snd kv) m) rm (kv # kvs)
            = foldl (\<lambda>m kv. AList.update (fst kv) (snd kv) m) ?rm kvs"
      by (simp add: kv u)
    also have "\<dots> = map (\<lambda>(k', v'). (k', lastValue k' v' kvs)) ?rm
                     @ oncePerPath (filter (\<lambda>kv. fst kv \<notin> fst ` set ?rm) kvs)"
      by (rule Cons.IH[OF d])
    also have "\<dots> = map (\<lambda>(k', v'). (k', lastValue k' v' ((k, v) # kvs))) rm
                     @ oncePerPath (filter (\<lambda>kv. fst kv \<notin> fst ` set rm) kvs)"
      unfolding m keys by (rule refl)
    also have "filter (\<lambda>kv. fst kv \<notin> fst ` set rm) kvs
                 = filter (\<lambda>kv. fst kv \<notin> fst ` set rm) (kv # kvs)"
      using True by (simp add: kv)
    finally show ?thesis by (simp add: kv)
  next
    case False
    let ?rm = "rm @ [(k, v)]"
    have u: "AList.update k v rm = ?rm" by (rule update_notin[OF False])
    have d: "distinct (map fst ?rm)"
      using Cons.prems False by simp
    have f: "filter (\<lambda>kv. fst kv \<notin> fst ` set ?rm) kvs
           = filter (\<lambda>kv. fst kv \<noteq> k) (filter (\<lambda>kv. fst kv \<notin> fst ` set rm) kvs)"
      by (induction kvs) auto
    have m: "map (\<lambda>(k', v'). (k', lastValue k' v' ((k, v) # kvs))) rm
           = map (\<lambda>(k', v'). (k', lastValue k' v' kvs)) rm"
      using False by (induction rm) (auto simp: lastValue_Cons)
    have l: "lastValue k v (filter (\<lambda>kv. fst kv \<notin> fst ` set rm) kvs) = lastValue k v kvs"
      by (rule lastValue_filter[OF False])
    have "foldl (\<lambda>m kv. AList.update (fst kv) (snd kv) m) rm (kv # kvs)
            = foldl (\<lambda>m kv. AList.update (fst kv) (snd kv) m) ?rm kvs"
      by (simp add: kv u)
    also have "\<dots> = map (\<lambda>(k', v'). (k', lastValue k' v' kvs)) ?rm
                     @ oncePerPath (filter (\<lambda>kv. fst kv \<notin> fst ` set ?rm) kvs)"
      by (rule Cons.IH[OF d])
    also have "\<dots> = map (\<lambda>(k', v'). (k', lastValue k' v' kvs)) rm
                     @ oncePerPath ((k, v) # filter (\<lambda>kv. fst kv \<notin> fst ` set rm) kvs)"
      unfolding f by (simp add: l)
    also have "(k, v) # filter (\<lambda>kv. fst kv \<notin> fst ` set rm) kvs
                 = filter (\<lambda>kv. fst kv \<notin> fst ` set rm) (kv # kvs)"
      using False by (simp add: kv)
    finally show ?thesis unfolding kv m .
  qed
qed

lemma recordRules_validated:
  "recordRules e irps rs (rm, sd, lg) = (rm', sd', lg') \<Longrightarrow>
   rm' = foldl (\<lambda>m kv. AList.update (fst kv) (snd kv) m) rm (validatedRules e irps rs sd)"
proof (induction rs arbitrary: rm sd lg)
  case Nil
  then show ?case by simp
next
  case (Cons r rs)
  obtain res sd1 where v:
    "validateValueAtPath e sd (rule_path r) (rule_value r) (inlineResourceTypes irps r) = (res, sd1)"
    by (cases "validateValueAtPath e sd (rule_path r) (rule_value r) (inlineResourceTypes irps r)")
  show ?case
  proof (cases res)
    case (Inl msg)
    with Cons.prems v Cons.IH show ?thesis by simp
  next
    case (Inr vr)
    with Cons.prems v Cons.IH show ?thesis by simp
  qed
qed

lemma recordRules_oncePerPath:
  assumes "recordRules e irps rs ([], sd, []) = (rm, sd', lg)"
  shows "rm = oncePerPath (validatedRules e irps rs sd)"
  using foldl_update_oncePerPath[of "[]" "validatedRules e irps rs sd"]
    recordRules_validated[OF assms] by simp

lemma oncePerPath_distinct:
  "distinct (map fst kvs) \<Longrightarrow> oncePerPath kvs = kvs"
proof (induction kvs rule: oncePerPath.induct)
  case 1
  then show ?case by simp
next
  case (2 k v kvs)
  then have n: "k \<notin> fst ` set kvs" and d: "distinct (map fst kvs)" by simp_all
  from n have f: "filter (\<lambda>kv. fst kv \<noteq> k) kvs = kvs"
    by (auto simp: filter_id_conv)
  from n have "map_of (rev kvs) k = None"
    by (simp add: map_of_eq_None_iff)
  then have "lastValue k v kvs = v" by (simp add: lastValue_def)
  with 2 f d show ?case by simp
qed


lemma setAssignedValues_returned:
  assumes conv: "convertInstanceRules exp e (preparedRules e f)
                   (logTo (helperEntries (snd (applyInsertRules e f))) st) = (Returned rules, st1)"
      and irps: "inlineResourcePaths rules = Inr irps"
  shows "setAssignedValues exp e f d sd st =
           (Returned (applyRuleMap e (fst (recordRules e irps rules ([], sd, [])))
                        (impliedProperties e irps rules d sd),
                      validatedDefinition e irps rules sd),
            logTo (ruleErrors e irps rules sd) st1)"
proof -
  obtain ins lg0 where a: "applyInsertRules e f = (ins, lg0)"
    by (cases "applyInsertRules e f")
  obtain rm sd1 lg1 where rr: "recordRules e irps rules ([], sd, []) = (rm, sd1, lg1)"
    by (cases "recordRules e irps rules ([], sd, [])") auto
  from conv a have c: "convertInstanceRules exp e
      (map (replaceReferences e) (map (\<lambda>r. r\<lparr>rule_path := removeZeroIndices (rule_path r)\<rparr>) ins))
      (logTo (helperEntries lg0) st) = (Returned rules, st1)"
    by (simp add: preparedRules_def)
  show ?thesis
    using c
    by (simp add: setAssignedValues_def a irps rr impliedProperties_def validatedDefinition_def
        ruleErrors_def)
qed





section \<open>The id of an exported instance\<close>

lemma exportInstance_finished:
  assumes run: "exportInstance (Suc n) e f st = (Returned (Some d), st')"
  obtains sd props1 sd1 st3 where
    "fisher e (inst_instanceOf f) instanceOfKinds = Some sd"
    and "setAssignedValues (exportInstance n e) e (expanded e f sd) (initialDefinition f sd) sd
           (started e f sd st) = (Returned (props1, sd1), st3)"
    and "props d = cleanResource e (fst (validateId e props1 (inst_sourceInfo f)))"
    and "length (pkg_instances st) < length (pkg_instances st')"
    and "pkg_instances st' ! length (pkg_instances st) = d"
    and "set (helperEntries (snd (validateId e props1 (inst_sourceInfo f)))) \<subseteq> set (logged st st')"
proof -
  let ?exp = "exportInstance n e"
  from run have run': "exportInstanceWith ?exp e f st = (Returned (Some d), st')" by simp
  have new: "\<not> alreadyExported f st"
    using run' by (auto simp: exportInstanceWith_already)
  obtain sd where sd: "fisher e (inst_instanceOf f) instanceOfKinds = Some sd"
    using run' new by (cases "fisher e (inst_instanceOf f) instanceOfKinds")
      (auto simp: exportInstanceWith_undefined)
  let ?d0 = "initialDefinition f sd"
  let ?k = "length (pkg_instances st)"
  obtain r3 st3 where sav:
    "setAssignedValues ?exp e (expanded e f sd) ?d0 sd (started e f sd st) = (r3, st3)"
    by (cases "setAssignedValues ?exp e (expanded e f sd) ?d0 sd (started e f sd st)")
  note eq = exportInstanceWith_found[OF new sd, of ?exp, unfolded sav]
  from run' eq obtain props1 sd1 where r3: "r3 = Returned (props1, sd1)"
    by (cases r3) auto
  from run' eq r3 have fin:
    "finishExport e (expanded e f sd) ?k ?d0 props1 sd1 st3 = (d, st')"
    by (auto split: prod.splits)
  have g3: "grows (started e f sd st) st3"
    by (rule setAssignedValues_rel[OF grows_logStable exportInstance_holds_grows sav])
  note fg = finishExport_grows[OF fin g3]
  have g: "grows st st3"
    by (rule grows_trans[OF grows_started g3])
  have p: "props d = cleanResource e (fst (validateId e props1 (inst_sourceInfo f)))"
    using finishExport_result(1)[OF fin] by simp
  have len: "?k < length (pkg_instances st')"
    using fg(4) fg(5) by simp
  have "logger st' = logger st @ logged st st3
           @ helperEntries (snd (validateId e props1 (inst_sourceInfo f)))
           @ validateRequiredElements (?d0\<lparr>props := fst (validateId e props1 (inst_sourceInfo f))\<rparr>)
               sd1 (expanded e f sd)
           @ (if hasDuplicateId ((pkg_instances st3)[?k := d]) ?k d
              then [LogEntry Error (DuplicateInstanceId (resourceType d) (instanceId d))
                      (Some (inst_sourceInfo (expanded e f sd)))]
              else [])"
    using finishExport_result(3)[OF fin] logged_grows[OF g] by simp
  then have "set (helperEntries (snd (validateId e props1 (inst_sourceInfo f)))) \<subseteq> set (logged st st')"
    unfolding logged_def[of st st'] by auto
  with sd sav[unfolded r3] p len fg(3) show ?thesis by (rule that)
qed

lemma validateId_spec_cases:
  "map_of ps ''id'' = Some (JStr i) \<Longrightarrow>
   validateId_spec ps si =
     (if isValidId i then (ps, [])
      else if isValidId (sanitizeId i)
      then (AList.update ''id'' (JStr (sanitizeId i)) ps, [(Warn, SanitizedId i (sanitizeId i), Some si)])
      else (ps, [(Error, InvalidFHIRId i, Some si)]))"
  "(\<And>i. map_of ps ''id'' \<noteq> Some (JStr i)) \<Longrightarrow> validateId_spec ps si = (ps, [])"
  by (auto simp: validateId_spec_def split: option.splits json.splits)





text \<open>The instance of the test with the id \<^verbatim>\<open>Some Patient\<close>: the id is reported and
  the instance is exported with it.\<close>

lemma exportInstance_invalid_id_example:
  "exportInstance (Suc 0) idEnv spacePatient emptyState =
     (Returned (Some (exampleDefinition ''MyExample''
                        [(''resourceType'', JStr ''Patient''), (''id'', JStr ''Some Patient'')])),
      spaceState)"
  by code_simp

section \<open>References\<close>

lemma getAtPath_setAtPath: "getAtPath (setAtPath cur parts v) parts = Some v"
proof (induction parts arbitrary: cur)
  case Nil
  then show ?case by simp
next
  case (Cons p ps)
  show ?case
  proof (cases "pp_index p")
    case None
    then show ?thesis
      by (simp add: Let_def objectProps_def update_conv' Cons.IH)
  next
    case (Some i)
    then show ?thesis
      by (simp add: Let_def objectProps_def update_conv' arrayItems_def padTo_def Cons.IH)
  qed
qed

lemma getAtPath_setPropertyOnInstance_spec:
  "parts \<noteq> [] \<Longrightarrow>
   getAtPath (JObj (setPropertyOnInstance_spec ps parts v)) parts = Some (relativeReference ps v)"
proof -
  assume ne: "parts \<noteq> []"
  then obtain p rest where parts: "parts = p # rest" by (cases parts) auto
  have "\<exists>kvs. setAtPath (JObj ps) parts (relativeReference ps v) = JObj kvs"
    by (cases "pp_index p") (simp_all add: parts Let_def)
  then obtain kvs where kvs: "setAtPath (JObj ps) parts (relativeReference ps v) = JObj kvs"
    by blast
  have "JObj (setPropertyOnInstance_spec ps parts v) = setAtPath (JObj ps) parts (relativeReference ps v)"
    using ne by (simp add: setPropertyOnInstance_spec_def kvs objectProps_def)
  then show ?thesis by (simp add: getAtPath_setAtPath)
qed

lemma relativeReference_referenceTo:
  "relativeReference ps (referenceTo s) =
     (case find (\<lambda>c. typeSlashId c = Some s) (containedResources ps) of
        Some c \<Rightarrow> (case getProp c ''id'' of Some (JStr i) \<Rightarrow> referenceTo (CHR ''#'' # i)
                   | _ \<Rightarrow> referenceTo s)
      | None \<Rightarrow> referenceTo s)"
  by (auto simp: relativeReference_def referenceTo_def objectProps_def
      split: option.splits json.splits)

lemma emittedValue_reference:
  assumes "rule_value r = VReference s"
      and "resolveElement (sdef_root sd) (parsePath (rule_path r)) \<noteq> None"
      and "parsePath (rule_path r) \<noteq> []"
      and "replaceReferences_spec tnk fsr r = r\<lparr>rule_value := VReference s'\<rparr>"
  shows "emittedValue tnk fsr sd ps r = Some (relativeReference ps (referenceTo s'))"
  using assms
  by (simp add: emittedValue_def validateValueAtPath_spec_def valueToJson_def referenceTo_def
      getAtPath_setPropertyOnInstance_spec)




text \<open>The three instances of the tests, exported.\<close>

lemma exportInstance_reference_example:
  "exportInstance 2 referenceEnv referringPatient emptyState =
     (Returned (Some (exampleDefinition ''Referring''
        (referringProps @ [(''managingOrganization'', referenceTo ''Organization/org-id'')]))),
      \<lparr>pkg_instances =
         [exampleDefinition ''Referring''
            (referringProps @ [(''managingOrganization'', referenceTo ''Organization/org-id'')])],
       logger = []\<rparr>)"
  by code_simp

lemma exportInstance_contained_reference_example:
  "exportInstance 2 referenceEnv containingReferrer emptyState =
     (Returned (Some (exampleDefinition ''Containing''
        (containingProps @ [(''managingOrganization'', referenceTo ''#org-id'')]))),
      \<lparr>pkg_instances =
         [exampleDefinition ''Containing''
            (containingProps @ [(''managingOrganization'', referenceTo ''#org-id'')]),
          exampleDefinition ''TestOrganization'' organizationProps],
       logger = []\<rparr>)"
  by code_simp

lemma exportInstance_external_reference_example:
  "exportInstance 2 referenceEnv externalReferrer emptyState =
     (Returned (Some (exampleDefinition ''External''
        [(''resourceType'', JStr ''Patient''), (''id'', JStr ''External''),
         (''managingOrganization'', referenceTo ''http://hl7.org/fhir/us/minimal'')])),
      \<lparr>pkg_instances =
         [exampleDefinition ''External''
            [(''resourceType'', JStr ''Patient''), (''id'', JStr ''External''),
             (''managingOrganization'', referenceTo ''http://hl7.org/fhir/us/minimal'')]],
       logger = []\<rparr>)"
  by code_simp


section \<open>Writing ig.ini\<close>

lemma igLog_simps [simp]:
  "igLogger (igLog l m st) = igLogger st @ [LogEntry l m None]"
  "outputIgIni (igLog l m st) = outputIgIni st"
  by (simp_all add: igLog_def)

lemma writeIgIni_simps [simp]:
  "igLogger (writeIgIni ini st) = igLogger st"
  "outputIgIni (writeIgIni ini st) = Some ini"
  by (simp_all add: writeIgIni_def)

lemma missing_warnings_length:
  "length (igLogger (foldl (\<lambda>s kv. igLog Warn (IgIniMissingProperty (fst kv)) s) st ms))
     = length (igLogger st) + length ms"
  by (induction ms arbitrary: st) simp_all

lemma addIgIni_logs:
  assumes "cfg_template config \<noteq> None \<or> igData \<noteq> None"
  shows "length (igLogger st) < length (igLogger (addIgIni config dt igData st))"
    and "outputIgIni (addIgIni config dt igData st) \<noteq> None"
  using assms
  by (auto simp: addIgIni_def Let_def missing_warnings_length split: option.splits)

text \<open>
  Claim C10.  \<^verbatim>\<open>addIgIni\<close> is not in the sources; the claim is proved of the model
  written from the specification.  When the configuration has no template and there is
  no \<^verbatim>\<open>ig-data/ig.ini\<close>, \<^verbatim>\<open>addIgIni\<close> leaves the output directory and the log as they
  are: no \<^verbatim>\<open>ig.ini\<close> is written and nothing is logged.  This is the only case in which it
  does nothing: with a template or an \<^verbatim>\<open>ig-data/ig.ini\<close>, an \<^verbatim>\<open>ig.ini\<close> is written and
  at least one message is logged.
\<close>

theorem addIgIni_does_nothing:
  "(cfg_template config = None \<and> igData = None \<longrightarrow> addIgIni config dt igData st = st) \<and>
   (cfg_template config \<noteq> None \<or> igData \<noteq> None \<longrightarrow>
      outputIgIni (addIgIni config dt igData st) \<noteq> None \<and>
      length (igLogger st) < length (igLogger (addIgIni config dt igData st)))"
  using addIgIni_logs[where config = config and igData = igData and st = st and dt = dt]
  by (auto simp: addIgIni_def)

text \<open>The configuration of the tests without its template and with it, on an empty
  output directory and no \<^verbatim>\<open>ig-data/ig.ini\<close>.\<close>

theorem addIgIni_does_nothing_witness:
  "cfg_template templatelessConfig = None \<and>
   addIgIni templatelessConfig ''fhir.base.template'' None emptyOutput = emptyOutput \<and>
   cfg_template minimalConfig \<noteq> None \<and>
   outputIgIni (addIgIni minimalConfig ''fhir.base.template'' None emptyOutput) \<noteq> None \<and>
   length (igLogger emptyOutput)
     < length (igLogger (addIgIni minimalConfig ''fhir.base.template'' None emptyOutput))"
proof -
  have a: "cfg_template templatelessConfig = None"
    by (simp add: templatelessConfig_def)
  have b: "cfg_template minimalConfig \<noteq> None"
    by (simp add: minimalConfig_def)
  from addIgIni_does_nothing[where config = templatelessConfig and igData = None
      and dt = "''fhir.base.template''" and st = emptyOutput] a
  have c: "addIgIni templatelessConfig ''fhir.base.template'' None emptyOutput = emptyOutput"
    by blast
  from addIgIni_does_nothing[where config = minimalConfig and igData = None
      and dt = "''fhir.base.template''" and st = emptyOutput] b
  have d: "outputIgIni (addIgIni minimalConfig ''fhir.base.template'' None emptyOutput) \<noteq> None \<and>
     length (igLogger emptyOutput)
       < length (igLogger (addIgIni minimalConfig ''fhir.base.template'' None emptyOutput))"
    by blast
  from a b c d show ?thesis by blast
qed

text \<open>The generated file of the tests, and the file merged from an \<^verbatim>\<open>ig-data/ig.ini\<close>
  that lacks both required properties.\<close>

lemma addIgIni_generated_example:
  "addIgIni minimalConfig ''fhir.base.template'' None emptyOutput =
     \<lparr>outputIgIni = Some \<lparr>ini_banner = GeneratedBanner,
                           ini_properties =
                             [(''ig'', ''input/ImplementationGuide-fhir.us.minimal.json''),
                              (''template'', ''hl7.fhir.template#0.0.5'')]\<rparr>,
      igLogger = [LogEntry Info GeneratedIgIni None]\<rparr>"
  by code_simp

lemma addIgIni_merged_example:
  "addIgIni templatelessConfig ''fhir.base.template'' (Some [(''usage-stats-opt-out'', ''true'')])
       emptyOutput =
     \<lparr>outputIgIni = Some \<lparr>ini_banner = MergedBanner,
                           ini_properties =
                             [(''usage-stats-opt-out'', ''true''),
                              (''ig'', ''input/ImplementationGuide-fhir.us.minimal.json''),
                              (''template'', ''fhir.base.template'')]\<rparr>,
      igLogger = [LogEntry Warn (IgIniMissingProperty ''ig'') None,
                  LogEntry Warn (IgIniMissingProperty ''template'') None,
                  LogEntry Info MergedIgIni None]\<rparr>"
  by code_simp


end
